theory Spec2Isabelle
  imports Main "HOL-Library.Word" "HOL-Library.AList"
begin

text \<open>
  A model of \<open>src/loader.ts\<close> of next-plugin-preval: the function \<open>_prevalLoader\<close>, which
  registers a Babel transform, loads a module, awaits its default export, validates the
  value and returns it as a JavaScript fragment around a JSON text. The libraries the
  function calls are parameters (a record of what they return), the process-wide state is
  passed through explicitly, and what the language itself does to a value
  (\<open>JSON.stringify\<close>, \<open>ToBoolean\<close>, \<open>JSON.parse\<close> where the fragment is consumed) is
  written out. \<open>loadConfig\<close>, \<open>createMatchPath\<close> and \<open>register\<close> are taken to return, as
  their types say. \<open>_prevalLoader\<close> is \<open>prevalLoader\<close> here, and field names of the
  source that several objects share are told apart (\<open>plugin_extensions\<close>,
  \<open>reg_extensions\<close>, \<open>ignore_list\<close>).
\<close>

section \<open>Strings\<close>

text \<open>
  A JavaScript string is a sequence of 16-bit code units. \<open>lit\<close> turns an ASCII literal of
  the source into its code units, and \<open>cu\<close> does so for a single character.
\<close>

type_synonym jsstring = "16 word list"

abbreviation cu :: "char \<Rightarrow> 16 word" where
  "cu c \<equiv> of_char c"

definition lit :: "string \<Rightarrow> jsstring" where
  "lit s = map of_char s"

text \<open>The code units \<open>"\<close> and \<open>\\<close>, which the theory writes by number.\<close>

definition dquote :: "16 word" where
  "dquote = 0x22"

definition backslash :: "16 word" where
  "backslash = 0x5C"

section \<open>Values\<close>

text \<open>
  The values a module can export and a promise can resolve to. Numbers are a type parameter:
  the theory takes what the runtime does with a number (\<open>Number.isFinite\<close>, \<open>ToBoolean\<close>,
  \<open>Number::toString\<close> and the reading of a JSON number token) as a record of operations.
  A record is the list of its own enumerable string-keyed properties, in enumeration order.
  \<open>JCircular k\<close> is a reference back to an enclosing record or sequence (the \<open>k\<close>-th one
  outwards), which is how a cyclic structure appears to a traversal. \<open>JExotic l r\<close> is an
  object that is neither a plain record nor an array (a \<open>Date\<close>, a \<open>Map\<close>, a class
  instance): \<open>l\<close> is its class label and \<open>r\<close> the value \<open>JSON.stringify\<close> writes in
  its place (the result of its \<open>toJSON\<close>, or its own enumerable properties).
\<close>

datatype 'n jsvalue =
    JUndefined
  | JNull
  | JBool bool
  | JNum 'n
  | JStr jsstring
  | JArr "'n jsvalue list"
  | JObj "(jsstring \<times> 'n jsvalue) list"
  | JFunction
  | JSymbol
  | JCircular nat
  | JExotic jsstring "'n jsvalue"

record 'n number_ops =
  num_finite :: "'n \<Rightarrow> bool"
  num_truthy :: "'n \<Rightarrow> bool"
  num_to_string :: "'n \<Rightarrow> jsstring"
  string_to_num :: "jsstring \<Rightarrow> 'n option"

text \<open>\<open>ToBoolean\<close>, which \<open>!mod.default\<close> applies to the default export.\<close>

fun to_boolean :: "'n number_ops \<Rightarrow> 'n jsvalue \<Rightarrow> bool" where
  "to_boolean N JUndefined = False"
| "to_boolean N JNull = False"
| "to_boolean N (JBool b) = b"
| "to_boolean N (JNum n) = num_truthy N n"
| "to_boolean N (JStr s) = (s \<noteq> [])"
| "to_boolean N (JArr vs) = True"
| "to_boolean N (JObj kvs) = True"
| "to_boolean N JFunction = True"
| "to_boolean N JSymbol = True"
| "to_boolean N (JCircular k) = True"
| "to_boolean N (JExotic l r) = True"

section \<open>JSON.stringify\<close>

text \<open>
  \<open>QuoteJSONString\<close>: the short escapes, \<open>\uXXXX\<close> (lower-case hexadecimal) for the other
  code units below space and for a surrogate that has no partner, every other code unit as
  it is. A leading surrogate followed by a trailing one is one code point and is copied.
\<close>

definition is_leading_surrogate :: "16 word \<Rightarrow> bool" where
  "is_leading_surrogate c = (0xD800 \<le> c \<and> c \<le> 0xDBFF)"

definition is_trailing_surrogate :: "16 word \<Rightarrow> bool" where
  "is_trailing_surrogate c = (0xDC00 \<le> c \<and> c \<le> 0xDFFF)"

definition hexdigit :: "nat \<Rightarrow> 16 word" where
  "hexdigit d = (if d < 10 then of_nat (48 + d) else of_nat (87 + d))"

definition UnicodeEscape :: "16 word \<Rightarrow> jsstring" where
  "UnicodeEscape c =
     [backslash, cu CHR ''u'',
      hexdigit (unat c div 4096), hexdigit (unat c div 256 mod 16),
      hexdigit (unat c div 16 mod 16), hexdigit (unat c mod 16)]"

definition escape_unit :: "16 word \<Rightarrow> jsstring" where
  "escape_unit c =
     (if c = 0x08 then [backslash, cu CHR ''b'']
      else if c = 0x09 then [backslash, cu CHR ''t'']
      else if c = 0x0A then [backslash, cu CHR ''n'']
      else if c = 0x0C then [backslash, cu CHR ''f'']
      else if c = 0x0D then [backslash, cu CHR ''r'']
      else if c = dquote then [backslash, dquote]
      else if c = backslash then [backslash, backslash]
      else if c < 0x20 \<or> is_leading_surrogate c \<or> is_trailing_surrogate c
        then UnicodeEscape c
      else [c])"

fun quote_units :: "jsstring \<Rightarrow> jsstring" where
  "quote_units [] = []"
| "quote_units [c] = escape_unit c"
| "quote_units (c # d # r) =
     (if is_leading_surrogate c \<and> is_trailing_surrogate d then c # d # quote_units r
      else escape_unit c @ quote_units (d # r))"

definition QuoteJSONString :: "jsstring \<Rightarrow> jsstring" where
  "QuoteJSONString s = dquote # quote_units s @ [dquote]"

text \<open>
  \<open>JSON.stringify\<close> with one argument returns a string, returns \<open>undefined\<close> (for
  \<open>undefined\<close>, a function or a symbol), or throws a \<open>TypeError\<close> (for a cyclic
  structure). In a sequence a value with no text is written \<open>null\<close>; in a record the
  property is left out. A number that is not finite is written \<open>null\<close>.
\<close>

datatype stringified = NoText | Text jsstring | ThrowsTypeError

fun join_commas :: "jsstring list \<Rightarrow> jsstring" where
  "join_commas [] = []"
| "join_commas [t] = t"
| "join_commas (t # u # ts) = t @ cu CHR '','' # join_commas (u # ts)"

fun SerializeJSONProperty :: "'n number_ops \<Rightarrow> 'n jsvalue \<Rightarrow> stringified"
  and SerializeJSONArray :: "'n number_ops \<Rightarrow> 'n jsvalue list \<Rightarrow> jsstring list option"
  and SerializeJSONObject ::
    "'n number_ops \<Rightarrow> (jsstring \<times> 'n jsvalue) list \<Rightarrow> jsstring list option"
where
  "SerializeJSONProperty N JUndefined = NoText"
| "SerializeJSONProperty N JNull = Text (lit ''null'')"
| "SerializeJSONProperty N (JBool b) = Text (if b then lit ''true'' else lit ''false'')"
| "SerializeJSONProperty N (JNum n) =
     Text (if num_finite N n then num_to_string N n else lit ''null'')"
| "SerializeJSONProperty N (JStr s) = Text (QuoteJSONString s)"
| "SerializeJSONProperty N (JArr vs) =
     (case SerializeJSONArray N vs of
        None \<Rightarrow> ThrowsTypeError
      | Some ts \<Rightarrow> Text (cu CHR ''['' # join_commas ts @ [cu CHR '']'']))"
| "SerializeJSONProperty N (JObj kvs) =
     (case SerializeJSONObject N kvs of
        None \<Rightarrow> ThrowsTypeError
      | Some ts \<Rightarrow> Text (cu CHR ''{'' # join_commas ts @ [cu CHR ''}'']))"
| "SerializeJSONProperty N JFunction = NoText"
| "SerializeJSONProperty N JSymbol = NoText"
| "SerializeJSONProperty N (JCircular k) = ThrowsTypeError"
| "SerializeJSONProperty N (JExotic l r) = SerializeJSONProperty N r"
| "SerializeJSONArray N [] = Some []"
| "SerializeJSONArray N (v # vs) =
     (case SerializeJSONProperty N v of
        ThrowsTypeError \<Rightarrow> None
      | NoText \<Rightarrow> map_option (Cons (lit ''null'')) (SerializeJSONArray N vs)
      | Text t \<Rightarrow> map_option (Cons t) (SerializeJSONArray N vs))"
| "SerializeJSONObject N [] = Some []"
| "SerializeJSONObject N ((k, v) # kvs) =
     (case SerializeJSONProperty N v of
        ThrowsTypeError \<Rightarrow> None
      | NoText \<Rightarrow> SerializeJSONObject N kvs
      | Text t \<Rightarrow>
          map_option (Cons (QuoteJSONString k @ cu CHR '':'' # t)) (SerializeJSONObject N kvs))"

definition JSON_stringify :: "'n number_ops \<Rightarrow> 'n jsvalue \<Rightarrow> stringified" where
  "JSON_stringify N v = SerializeJSONProperty N v"

section \<open>The loader's surroundings\<close>

text \<open>
  A thrown or rejected value is any JavaScript value; the handler of \<open>_prevalLoader\<close>
  observes of it \<open>typeof e === 'object'\<close>, \<open>!!e\<close>, \<open>Array.isArray(e)\<close>, whether it has a
  \<open>stack\<close> property and its value, and its conversion to a string in a template literal,
  which throws for a symbol or an object with no primitive value (\<open>None\<close>).
\<close>

record 'n thrown =
  typeof_object :: bool
  truthy :: bool
  is_array :: bool
  stack :: "'n jsvalue option"
  description :: "jsstring option"

text \<open>How a promise or thenable settles; \<open>Never\<close> is one that stays pending.\<close>

datatype 'n settlement = Fulfilled "'n jsvalue" | Rejected "'n thrown" | Never

text \<open>The default export: a value that is not thenable, or a thenable.\<close>

datatype 'n exported = Plain "'n jsvalue" | Thenable "'n settlement"

text \<open>
  What \<open>requireFromString\<close> does and what \<open>mod.default\<close> reads: loading throws (a
  compile error, an error while the module or one of its dependencies runs, or the
  \<open>TypeError\<close> of reading \<open>default\<close> from exports that are \<open>null\<close>), or the exports have
  a \<open>default\<close> member or none.
\<close>

datatype 'n loaded = Throws "'n thrown" | Exports "'n exported option"

text \<open>The result of \<open>loadConfig\<close> of tsconfig-paths, with the fields the loader reads.\<close>

record config_loader_success =
  absoluteBaseUrl :: jsstring
  paths :: "(jsstring \<times> jsstring list) list"

datatype config_loader_result =
    ConfigLoaderFail jsstring
  | ConfigLoaderSuccess config_loader_success

text \<open>A call of the function \<open>createMatchPath\<close> returns: a path, \<open>undefined\<close>, or a throw.\<close>

datatype match_result = MatchReturns "jsstring option" | MatchThrows

type_synonym 'n match_path =
  "jsstring \<Rightarrow> (jsstring \<Rightarrow> 'n jsvalue) \<Rightarrow> (jsstring \<Rightarrow> bool) \<Rightarrow> jsstring list \<Rightarrow> match_result"

text \<open>
  The options handed to \<open>register\<close> of @babel/register. \<open>'o\<close> is the type of the options
  object that the module-resolver plugin passes to \<open>resolvePath\<close> as its third argument.
\<close>

datatype preset = Preset jsstring | PresetWith jsstring "(jsstring \<times> jsstring) list"

record 'o plugin =
  plugin_name :: jsstring
  plugin_extensions :: "jsstring list"
  resolvePath :: "jsstring \<Rightarrow> jsstring \<Rightarrow> 'o \<Rightarrow> jsstring option"

record 'o register_options =
  caller_isServer :: bool
  presets :: "preset list"
  plugins :: "'o plugin list"
  rootMode :: jsstring
  ignore_list :: "jsstring list"
  compact :: bool
  reg_extensions :: "jsstring list"

text \<open>
  The collaborators of one evaluation: tsconfig-paths (\<open>loadConfig\<close>, \<open>createMatchPath\<close>),
  babel-plugin-module-resolver (\<open>defaultResolvePath\<close>), Node (\<open>require\<close> and
  \<open>fs.existsSync\<close>, \<open>None\<close> when they throw), require-from-string under the transform
  registration that is active when it is called, and the \<open>stack\<close> the engine gives a new
  \<open>Error\<close> with a given message.
\<close>

record ('n, 'o) env =
  loadConfig :: config_loader_result
  createMatchPath :: "jsstring \<Rightarrow> (jsstring \<times> jsstring list) list \<Rightarrow> 'n match_path"
  defaultResolvePath :: "jsstring \<Rightarrow> jsstring \<Rightarrow> 'o \<Rightarrow> jsstring option"
  require :: "jsstring \<Rightarrow> 'n jsvalue option"
  existsSync :: "jsstring \<Rightarrow> bool option"
  requireFromString :: "'o register_options option \<Rightarrow> jsstring \<Rightarrow> jsstring \<Rightarrow> 'n loaded"
  stack_trace :: "jsstring \<Rightarrow> 'n jsvalue"

text \<open>
  The process-wide state the loader changes: the transform registration (\<open>None\<close> when
  inactive) and the trace of its effects, in order.
\<close>

datatype ('n, 'o) event =
    Register "'o register_options"
  | Revert
  | ConsoleError "'n jsvalue list"

record ('n, 'o) world =
  hook :: "'o register_options option"
  trace :: "('n, 'o) event list"

definition register :: "'o register_options \<Rightarrow> ('n, 'o) world \<Rightarrow> ('n, 'o) world" where
  "register opts w = w\<lparr>hook := Some opts, trace := trace w @ [Register opts]\<rparr>"

definition revert :: "('n, 'o) world \<Rightarrow> ('n, 'o) world" where
  "revert w = w\<lparr>hook := None, trace := trace w @ [Revert]\<rparr>"

definition console_error :: "'n jsvalue list \<Rightarrow> ('n, 'o) world \<Rightarrow> ('n, 'o) world" where
  "console_error args w = w\<lparr>trace := trace w @ [ConsoleError args]\<rparr>"

fun is_revert :: "('n, 'o) event \<Rightarrow> bool" where
  "is_revert Revert = True"
| "is_revert (Register opts) = False"
| "is_revert (ConsoleError args) = False"

fun is_console_error :: "('n, 'o) event \<Rightarrow> bool" where
  "is_console_error (ConsoleError args) = True"
| "is_console_error (Register opts) = False"
| "is_console_error Revert = False"

text \<open>
  What a call ends with: a value, an error, or (for an asynchronous function) a suspension
  at an \<open>await\<close> that is never resumed. The errors are the loader's own \<open>PrevalError\<close>
  with its message, a \<open>TypeError\<close> of the runtime, and the validator's error, which names
  the resource, the path of the failing value (record keys and sequence indices from the
  root) and its shape.
\<close>

datatype segment = Key jsstring | Index nat

datatype shape = Callable | UniqueToken | CircularReference | NonData

datatype raised =
    PrevalError jsstring
  | TypeError
  | SerializationFailure jsstring "segment list" shape

datatype 'a outcome = Returned 'a | Raised raised | Suspended

section \<open>loader.ts\<close>

record PrevalLoaderOptions =
  extensions :: "jsstring list option"

definition defaultExtensions :: "jsstring list" where
  "defaultExtensions = [lit ''.js'', lit ''.jsx'', lit ''.ts'', lit ''.tsx'']"

definition isRecord :: "'n thrown \<Rightarrow> bool" where
  "isRecord something = (typeof_object something \<and> truthy something \<and> \<not> is_array something)"

definition readJson :: "('n, 'o) env \<Rightarrow> jsstring \<Rightarrow> 'n jsvalue" where
  "readJson E filename = (case require E filename of Some v \<Rightarrow> v | None \<Rightarrow> JUndefined)"

definition fileExists :: "('n, 'o) env \<Rightarrow> jsstring \<Rightarrow> bool" where
  "fileExists E filename = (case existsSync E filename of Some b \<Rightarrow> b | None \<Rightarrow> False)"

text \<open>The \<open>resolvePath\<close> arrow function of the module-resolver plugin (lines 65 to 75).\<close>

definition moduleResolver_resolvePath ::
  "('n, 'o) env \<Rightarrow> 'n match_path option \<Rightarrow> jsstring list \<Rightarrow>
   jsstring \<Rightarrow> jsstring \<Rightarrow> 'o \<Rightarrow> jsstring option" where
  "moduleResolver_resolvePath E matchPath exts sourcePath currentFile opts =
     (case matchPath of
        Some m \<Rightarrow>
          (case m sourcePath (readJson E) (fileExists E) exts of
             MatchReturns r \<Rightarrow> r
           | MatchThrows \<Rightarrow> defaultResolvePath E sourcePath currentFile opts)
      | None \<Rightarrow> defaultResolvePath E sourcePath currentFile opts)"

text \<open>
  The object \<open>new PrevalError(message)\<close> as a thrown value: an \<open>Error\<close> object with a
  stack, whose string form is \<open>Error: \<close> followed by the message (the class sets no name).
\<close>

definition new_PrevalError :: "('n, 'o) env \<Rightarrow> jsstring \<Rightarrow> 'n thrown" where
  "new_PrevalError E message =
     \<lparr>typeof_object = True, truthy = True, is_array = False,
      stack = Some (stack_trace E message),
      description = Some (lit ''Error: '' @ message)\<rparr>"

definition no_default_export_message :: jsstring where
  "no_default_export_message = lit ''No default export. Did you forget to `export default`?''"

definition failed_message :: "jsstring \<Rightarrow> jsstring \<Rightarrow> jsstring" where
  "failed_message resource d =
     lit ''Failed to pre-evaluate '' @ [dquote] @ resource @ [dquote] @ lit ''. '' @ d
       @ lit '' See above for full stack trace.''"

definition module_source :: "jsstring \<Rightarrow> jsstring" where
  "module_source resource =
     lit ''require('' @ [0x27] @ lit ''next'' @ [0x27] @ lit '');'' @ [0x0A]
       @ lit ''module.exports = require('' @ QuoteJSONString resource @ lit '')''"

definition exported_truthy :: "'n number_ops \<Rightarrow> 'n exported \<Rightarrow> bool" where
  "exported_truthy N x = (case x of Plain v \<Rightarrow> to_boolean N v | Thenable p \<Rightarrow> True)"

text \<open>
  The asynchronous function at lines 102 to 130, block by block. The \<open>try\<close> block
  completes with the awaited value, completes with a thrown value, or stays at its
  \<open>await\<close>; it is run under the registration \<open>h\<close> and has no effect of its own.
\<close>

datatype 'n completion = Normal "'n jsvalue" | Throw "'n thrown" | Pending

definition try_block ::
  "'n number_ops \<Rightarrow> ('n, 'o) env \<Rightarrow> jsstring \<Rightarrow> 'o register_options option \<Rightarrow> 'n completion" where
  "try_block N E resource h =
     (case requireFromString E h (module_source resource) (resource @ lit ''.preval.js'') of
        Throws e \<Rightarrow> Throw e
      | Exports d \<Rightarrow>
          (let mod_default = (case d of None \<Rightarrow> Plain JUndefined | Some x \<Rightarrow> x) in
           if \<not> exported_truthy N mod_default
           then Throw (new_PrevalError E no_default_export_message)
           else (case mod_default of
                   Plain v \<Rightarrow> Normal v
                 | Thenable (Fulfilled v) \<Rightarrow> Normal v
                 | Thenable (Rejected e) \<Rightarrow> Throw e
                 | Thenable Never \<Rightarrow> Pending)))"

text \<open>
  The \<open>catch\<close> block, entered with the caught value \<open>e\<close>: the guarded diagnostic line,
  then the throw of the new error (or of the \<open>TypeError\<close> of the template literal).
\<close>

definition catch_block ::
  "jsstring \<Rightarrow> 'n thrown \<Rightarrow> ('n, 'o) world \<Rightarrow> 'n jsvalue outcome \<times> ('n, 'o) world" where
  "catch_block resource e w =
     (let w1 = (if isRecord e \<and> stack e \<noteq> None
                then console_error [JStr (lit ''[next-plugin-preval]''), the (stack e)] w
                else w)
      in case description e of
           None \<Rightarrow> (Raised TypeError, w1)
         | Some d \<Rightarrow> (Raised (PrevalError (failed_message resource d)), w1))"

text \<open>The \<open>finally\<close> block, entered with the completion of what came before it.\<close>

definition finally_block ::
  "'n jsvalue outcome \<times> ('n, 'o) world \<Rightarrow> 'n jsvalue outcome \<times> ('n, 'o) world" where
  "finally_block r = (fst r, revert (snd r))"

definition evaluate_module ::
  "'n number_ops \<Rightarrow> ('n, 'o) env \<Rightarrow> jsstring \<Rightarrow> ('n, 'o) world \<Rightarrow>
   'n jsvalue outcome \<times> ('n, 'o) world" where
  "evaluate_module N E resource w =
     (case try_block N E resource (hook w) of
        Pending \<Rightarrow> (Suspended, w)
      | Normal v \<Rightarrow> finally_block (Returned v, w)
      | Throw e \<Rightarrow> finally_block (catch_block resource e w))"

text \<open>The template literal of the last line, for what \<open>JSON.stringify(data)\<close> returned.\<close>

definition fragment :: "jsstring \<Rightarrow> jsstring" where
  "fragment t = lit ''module.exports = JSON.parse('' @ QuoteJSONString t @ lit '')''"

definition babel_options :: "jsstring list \<Rightarrow> 'o plugin option \<Rightarrow> 'o register_options" where
  "babel_options exts moduleResolver =
     \<lparr>caller_isServer = True,
      presets = [Preset (lit ''next/babel''),
                 PresetWith (lit ''@babel/preset-env'') [(lit ''targets'', lit ''node 18'')]],
      plugins = (case moduleResolver of Some m \<Rightarrow> [m] | None \<Rightarrow> []),
      rootMode = lit ''upward-optional'',
      ignore_list = [],
      compact = True,
      reg_extensions = exts\<rparr>"

text \<open>
  Lines 45 to 100 of \<open>_prevalLoader\<close>: the argument of \<open>register\<close>, with the alias
  configuration read and the module-resolver plugin built on the way.
\<close>

definition transform_options :: "('n, 'o) env \<Rightarrow> PrevalLoaderOptions \<Rightarrow> 'o register_options" where
  "transform_options E options =
     (let exts = (case extensions options of None \<Rightarrow> defaultExtensions | Some x \<Rightarrow> x);
          configLoaderResult = loadConfig E;
          configLoaderSuccessResult =
            (case configLoaderResult of
               ConfigLoaderFail m \<Rightarrow> None
             | ConfigLoaderSuccess c \<Rightarrow> Some c);
          matchPath =
            map_option (\<lambda>c. createMatchPath E (absoluteBaseUrl c) (paths c))
              configLoaderSuccessResult;
          moduleResolver =
            map_option
              (\<lambda>c. \<lparr>plugin_name = lit ''module-resolver'', plugin_extensions = exts,
                     resolvePath = moduleResolver_resolvePath E matchPath exts\<rparr>)
              configLoaderSuccessResult
      in babel_options exts moduleResolver)"

text \<open>
  \<open>_prevalLoader\<close>: the options of lines 45 to 100 are registered, the module is
  evaluated, the result is validated and the fragment is built. \<open>isSerializable\<close> is
  imported from a file that is not among the sources, so it is a parameter: \<open>V resource
  data\<close> is what it throws, \<open>None\<close> when it returns. The first argument of the source,
  named \<open>_\<close> there, is not used.
\<close>

definition prevalLoader ::
  "'n number_ops \<Rightarrow> (jsstring \<Rightarrow> 'n jsvalue \<Rightarrow> raised option) \<Rightarrow> ('n, 'o) env \<Rightarrow>
   jsstring \<Rightarrow> jsstring \<Rightarrow> PrevalLoaderOptions \<Rightarrow> ('n, 'o) world \<Rightarrow>
   jsstring outcome \<times> ('n, 'o) world" where
  "prevalLoader N V E content resource options w =
     (let w1 = register (transform_options E options) w
      in case evaluate_module N E resource w1 of
           (Raised err, w2) \<Rightarrow> (Raised err, w2)
         | (Suspended, w2) \<Rightarrow> (Suspended, w2)
         | (Returned data, w2) \<Rightarrow>
             (case V resource data of
                Some err \<Rightarrow> (Raised err, w2)
              | None \<Rightarrow>
                  (case JSON_stringify N data of
                     ThrowsTypeError \<Rightarrow> (Raised TypeError, w2)
                   | NoText \<Rightarrow> (Returned (lit ''module.exports = JSON.parse(undefined)''), w2)
                   | Text t \<Rightarrow> (Returned (fragment t), w2))))"

section \<open>Notions the properties are stated with\<close>

text \<open>
  What \<open>requireFromString\<close> gives for a resource under the registration that
  \<open>_prevalLoader\<close> has made when it calls it.
\<close>

definition loaded_module :: "('n, 'o) env \<Rightarrow> jsstring \<Rightarrow> PrevalLoaderOptions \<Rightarrow> 'n loaded" where
  "loaded_module E resource options =
     requireFromString E (Some (transform_options E options)) (module_source resource)
       (resource @ lit ''.preval.js'')"

text \<open>
  The default export is a thenable that fulfils with \<open>v\<close>, or is the truthy value \<open>v\<close>
  itself.
\<close>

definition resolves_to ::
  "'n number_ops \<Rightarrow> ('n, 'o) env \<Rightarrow> jsstring \<Rightarrow> PrevalLoaderOptions \<Rightarrow> 'n jsvalue \<Rightarrow> bool" where
  "resolves_to N E resource options v =
     (loaded_module E resource options = Exports (Some (Thenable (Fulfilled v)))
      \<or> loaded_module E resource options = Exports (Some (Plain v)) \<and> to_boolean N v)"

text \<open>
  A value built only from plain string-keyed records, ordered sequences, strings, finite
  numbers, booleans and \<open>null\<close>.
\<close>

fun is_data :: "'n number_ops \<Rightarrow> 'n jsvalue \<Rightarrow> bool" where
  "is_data N JNull = True"
| "is_data N (JBool b) = True"
| "is_data N (JNum n) = num_finite N n"
| "is_data N (JStr s) = True"
| "is_data N (JArr vs) = (\<forall>v \<in> set vs. is_data N v)"
| "is_data N (JObj kvs) = (\<forall>(k, v) \<in> set kvs. is_data N v)"
| "is_data N JUndefined = False"
| "is_data N JFunction = False"
| "is_data N JSymbol = False"
| "is_data N (JCircular k) = False"
| "is_data N (JExotic l r) = False"

text \<open>The text \<open>JSON.stringify\<close> writes for a value, empty where it writes none.\<close>

definition text_of :: "'n number_ops \<Rightarrow> 'n jsvalue \<Rightarrow> jsstring" where
  "text_of N v =
     (case JSON_stringify N v of Text t \<Rightarrow> t | NoText \<Rightarrow> [] | ThrowsTypeError \<Rightarrow> [])"

text \<open>
  Modelled from the spec: how the transform pipeline resolves a specifier, which is code of
  babel-plugin-module-resolver and not of this repository (section 4.1: a registered
  resolver is asked; when "the resolver is absent ... all specifiers fall through to
  default resolution").
\<close>

definition pipeline_resolve ::
  "('n, 'o) env \<Rightarrow> 'o register_options \<Rightarrow> jsstring \<Rightarrow> jsstring \<Rightarrow> 'o \<Rightarrow> jsstring option" where
  "pipeline_resolve E ropts sourcePath currentFile opts =
     (case plugins ropts of
        [] \<Rightarrow> defaultResolvePath E sourcePath currentFile opts
      | p # ps \<Rightarrow> resolvePath p sourcePath currentFile opts)"

text \<open>
  A record holds each key once (a property of every JavaScript object, which the list of
  properties has to be given).
\<close>

fun distinct_keys :: "'n jsvalue \<Rightarrow> bool" where
  "distinct_keys (JArr vs) = (\<forall>v \<in> set vs. distinct_keys v)"
| "distinct_keys (JObj kvs) = (distinct (map fst kvs) \<and> (\<forall>(k, v) \<in> set kvs. distinct_keys v))"
| "distinct_keys (JExotic l r) = distinct_keys r"
| "distinct_keys JUndefined = True"
| "distinct_keys JNull = True"
| "distinct_keys (JBool b) = True"
| "distinct_keys (JNum n) = True"
| "distinct_keys (JStr s) = True"
| "distinct_keys JFunction = True"
| "distinct_keys JSymbol = True"
| "distinct_keys (JCircular k) = True"

text \<open>The value at a path of record keys and sequence indices, from the root.\<close>

fun value_at :: "'n jsvalue \<Rightarrow> segment list \<Rightarrow> 'n jsvalue option" where
  "value_at v [] = Some v"
| "value_at (JObj kvs) (Key k # p) =
     (case map_of kvs k of None \<Rightarrow> None | Some c \<Rightarrow> value_at c p)"
| "value_at (JArr vs) (Index i # p) = (if i < length vs then value_at (vs ! i) p else None)"
| "value_at v (s # p) = None"

text \<open>
  The shape of a value that is itself no data: a callable, a symbol, a circular reference,
  or another construct that is not data (\<open>undefined\<close>, a number that is not finite, an
  object that is neither a plain record nor a sequence).
\<close>

fun non_data_shape :: "'n number_ops \<Rightarrow> 'n jsvalue \<Rightarrow> shape option" where
  "non_data_shape N JFunction = Some Callable"
| "non_data_shape N JSymbol = Some UniqueToken"
| "non_data_shape N (JCircular k) = Some CircularReference"
| "non_data_shape N JUndefined = Some NonData"
| "non_data_shape N (JExotic l r) = Some NonData"
| "non_data_shape N (JNum n) = (if num_finite N n then None else Some NonData)"
| "non_data_shape N JNull = None"
| "non_data_shape N (JBool b) = None"
| "non_data_shape N (JStr s) = None"
| "non_data_shape N (JArr vs) = None"
| "non_data_shape N (JObj kvs) = None"

section \<open>The validator\<close>

text \<open>
  Modelled from the spec: \<open>isSerializable\<close> of \<open>./is-serializable\<close>, a file of this
  repository that is not among the sources. Section 4.4: "recursively classify value. Accept
  strings, finite numbers, booleans, null, plain string-keyed records (recursing into each
  value), and ordered sequences (recursing into each element). Reject: callables,
  symbols/unique tokens, circular references (a value that is its own ancestor in the
  traversal), and any other non-data construct, each producing an error naming the
  resourcePath and the failing value's shape/path". The traversal goes through a record
  and a sequence in order and stops at the first value it rejects.
\<close>

fun validate :: "'n number_ops \<Rightarrow> jsstring \<Rightarrow> segment list \<Rightarrow> 'n jsvalue \<Rightarrow> raised option"
  and validate_elements ::
    "'n number_ops \<Rightarrow> jsstring \<Rightarrow> segment list \<Rightarrow> nat \<Rightarrow> 'n jsvalue list \<Rightarrow> raised option"
  and validate_members ::
    "'n number_ops \<Rightarrow> jsstring \<Rightarrow> segment list \<Rightarrow> (jsstring \<times> 'n jsvalue) list \<Rightarrow> raised option"
where
  "validate N resource path JNull = None"
| "validate N resource path (JBool b) = None"
| "validate N resource path (JStr s) = None"
| "validate N resource path (JNum n) =
     (if num_finite N n then None else Some (SerializationFailure resource path NonData))"
| "validate N resource path (JArr vs) = validate_elements N resource path 0 vs"
| "validate N resource path (JObj kvs) = validate_members N resource path kvs"
| "validate N resource path JFunction = Some (SerializationFailure resource path Callable)"
| "validate N resource path JSymbol = Some (SerializationFailure resource path UniqueToken)"
| "validate N resource path (JCircular k) =
     Some (SerializationFailure resource path CircularReference)"
| "validate N resource path JUndefined = Some (SerializationFailure resource path NonData)"
| "validate N resource path (JExotic l r) = Some (SerializationFailure resource path NonData)"
| "validate_elements N resource path i [] = None"
| "validate_elements N resource path i (v # vs) =
     (case validate N resource (path @ [Index i]) v of
        Some err \<Rightarrow> Some err
      | None \<Rightarrow> validate_elements N resource path (Suc i) vs)"
| "validate_members N resource path [] = None"
| "validate_members N resource path ((k, v) # kvs) =
     (case validate N resource (path @ [Key k]) v of
        Some err \<Rightarrow> Some err
      | None \<Rightarrow> validate_members N resource path kvs)"

definition isSerializable :: "'n number_ops \<Rightarrow> jsstring \<Rightarrow> 'n jsvalue \<Rightarrow> raised option" where
  "isSerializable N resource input = validate N resource [] input"

section \<open>Reading the fragment\<close>

text \<open>
  \<open>JSON.parse\<close>, which the consumer of the fragment runs. White space may stand between
  tokens. A string holds no raw code unit below space, and the escapes are the short ones
  and \<open>\uXXXX\<close>. A number token is the longest run of the characters of a number and is
  read by the runtime. A record is built by defining its properties in the order of the
  text, so a repeated key keeps its first place and its last value. The recursion has fuel,
  one more than the length of the text, which is enough for every text that
  \<open>JSON.stringify\<close> writes for data (lemma \<open>JSON_parse_written\<close>); \<open>None\<close> stands for
  the \<open>SyntaxError\<close>.
\<close>

definition is_ws :: "16 word \<Rightarrow> bool" where
  "is_ws c = (c = 0x09 \<or> c = 0x0A \<or> c = 0x0D \<or> c = 0x20)"

definition skip_ws :: "jsstring \<Rightarrow> jsstring" where
  "skip_ws s = dropWhile is_ws s"

definition is_digit :: "16 word \<Rightarrow> bool" where
  "is_digit c = (cu CHR ''0'' \<le> c \<and> c \<le> cu CHR ''9'')"

definition is_num_char :: "16 word \<Rightarrow> bool" where
  "is_num_char c =
     (is_digit c \<or> c = cu CHR ''-'' \<or> c = cu CHR ''+'' \<or> c = cu CHR ''.''
      \<or> c = cu CHR ''e'' \<or> c = cu CHR ''E'')"

definition hexval :: "16 word \<Rightarrow> nat option" where
  "hexval c =
     (if cu CHR ''0'' \<le> c \<and> c \<le> cu CHR ''9'' then Some (unat c - 48)
      else if cu CHR ''a'' \<le> c \<and> c \<le> cu CHR ''f'' then Some (unat c - 87)
      else if cu CHR ''A'' \<le> c \<and> c \<le> cu CHR ''F'' then Some (unat c - 55)
      else None)"

definition unescape :: "16 word \<Rightarrow> 16 word option" where
  "unescape e =
     (if e = dquote then Some dquote
      else if e = backslash then Some backslash
      else if e = cu CHR ''/'' then Some (cu CHR ''/'')
      else if e = cu CHR ''b'' then Some 0x08
      else if e = cu CHR ''f'' then Some 0x0C
      else if e = cu CHR ''n'' then Some 0x0A
      else if e = cu CHR ''r'' then Some 0x0D
      else if e = cu CHR ''t'' then Some 0x09
      else None)"

definition hex4 :: "16 word \<Rightarrow> 16 word \<Rightarrow> 16 word \<Rightarrow> 16 word \<Rightarrow> 16 word option" where
  "hex4 h1 h2 h3 h4 =
     (case (hexval h1, hexval h2, hexval h3, hexval h4) of
        (Some a, Some b, Some c, Some d) \<Rightarrow> Some (of_nat (((a * 16 + b) * 16 + c) * 16 + d))
      | _ \<Rightarrow> None)"

text \<open>The characters of a string after its opening quote, up to the closing one.\<close>

fun parse_string_chars :: "jsstring \<Rightarrow> (jsstring \<times> jsstring) option"
  and parse_escape :: "jsstring \<Rightarrow> (jsstring \<times> jsstring) option"
where
  "parse_string_chars [] = None"
| "parse_string_chars (c # r) =
     (if c = dquote then Some ([], r)
      else if c = backslash then parse_escape r
      else if c < 0x20 then None
      else map_option (apfst (Cons c)) (parse_string_chars r))"
| "parse_escape [] = None"
| "parse_escape (e # r) =
     (if e = cu CHR ''u'' then
        (case r of
           h1 # h2 # h3 # h4 # r2 \<Rightarrow>
             (case hex4 h1 h2 h3 h4 of
                None \<Rightarrow> None
              | Some u \<Rightarrow> map_option (apfst (Cons u)) (parse_string_chars r2))
         | _ \<Rightarrow> None)
      else
        (case unescape e of
           None \<Rightarrow> None
         | Some u \<Rightarrow> map_option (apfst (Cons u)) (parse_string_chars r)))"

definition strip_prefix :: "jsstring \<Rightarrow> jsstring \<Rightarrow> jsstring option" where
  "strip_prefix p s = (if take (length p) s = p then Some (drop (length p) s) else None)"

definition parse_number :: "'n number_ops \<Rightarrow> jsstring \<Rightarrow> ('n jsvalue \<times> jsstring) option" where
  "parse_number N s =
     (case string_to_num N (takeWhile is_num_char s) of
        None \<Rightarrow> None
      | Some n \<Rightarrow> Some (JNum n, dropWhile is_num_char s))"

definition object_of :: "(jsstring \<times> 'n jsvalue) list \<Rightarrow> (jsstring \<times> 'n jsvalue) list" where
  "object_of ms = fold (\<lambda>(k, v) kvs. AList.update k v kvs) ms []"

fun parse_value :: "'n number_ops \<Rightarrow> nat \<Rightarrow> jsstring \<Rightarrow> ('n jsvalue \<times> jsstring) option"
  and parse_elements ::
    "'n number_ops \<Rightarrow> nat \<Rightarrow> jsstring \<Rightarrow> ('n jsvalue list \<times> jsstring) option"
  and parse_members ::
    "'n number_ops \<Rightarrow> nat \<Rightarrow> jsstring \<Rightarrow> ((jsstring \<times> 'n jsvalue) list \<times> jsstring) option"
where
  "parse_value N 0 s = None"
| "parse_value N (Suc n) s =
     (case skip_ws s of
        [] \<Rightarrow> None
      | c # r \<Rightarrow>
          if c = cu CHR ''n'' then map_option (Pair JNull) (strip_prefix (lit ''ull'') r)
          else if c = cu CHR ''t'' then map_option (Pair (JBool True)) (strip_prefix (lit ''rue'') r)
          else if c = cu CHR ''f'' then map_option (Pair (JBool False)) (strip_prefix (lit ''alse'') r)
          else if c = dquote then map_option (apfst JStr) (parse_string_chars r)
          else if c = cu CHR ''['' then
            (case skip_ws r of
               [] \<Rightarrow> None
             | d # r' \<Rightarrow>
                 if d = cu CHR '']'' then Some (JArr [], r')
                 else map_option (apfst JArr) (parse_elements N n (d # r')))
          else if c = cu CHR ''{'' then
            (case skip_ws r of
               [] \<Rightarrow> None
             | d # r' \<Rightarrow>
                 if d = cu CHR ''}'' then Some (JObj [], r')
                 else map_option (apfst (\<lambda>ms. JObj (object_of ms))) (parse_members N n (d # r')))
          else if c = cu CHR ''-'' \<or> is_digit c then parse_number N (c # r)
          else None)"
| "parse_elements N 0 s = None"
| "parse_elements N (Suc n) s =
     (case parse_value N n s of
        None \<Rightarrow> None
      | Some (v, r) \<Rightarrow>
          (case skip_ws r of
             [] \<Rightarrow> None
           | c # r' \<Rightarrow>
               if c = cu CHR '','' then map_option (apfst (Cons v)) (parse_elements N n r')
               else if c = cu CHR '']'' then Some ([v], r')
               else None))"
| "parse_members N 0 s = None"
| "parse_members N (Suc n) s =
     (case skip_ws s of
        [] \<Rightarrow> None
      | q # r \<Rightarrow>
          if q \<noteq> dquote then None
          else
            (case parse_string_chars r of
               None \<Rightarrow> None
             | Some (k, r1) \<Rightarrow>
                 (case skip_ws r1 of
                    [] \<Rightarrow> None
                  | c # r2 \<Rightarrow>
                      if c \<noteq> cu CHR '':'' then None
                      else
                        (case parse_value N n r2 of
                           None \<Rightarrow> None
                         | Some (v, r3) \<Rightarrow>
                             (case skip_ws r3 of
                                [] \<Rightarrow> None
                              | e # r4 \<Rightarrow>
                                  if e = cu CHR '','' then
                                    map_option (apfst (Cons (k, v))) (parse_members N n r4)
                                  else if e = cu CHR ''}'' then Some ([(k, v)], r4)
                                  else None)))))"

definition JSON_parse :: "'n number_ops \<Rightarrow> jsstring \<Rightarrow> 'n jsvalue option" where
  "JSON_parse N s =
     (case parse_value N (Suc (length s)) s of
        None \<Rightarrow> None
      | Some (v, r) \<Rightarrow> if skip_ws r = [] then Some v else None)"

text \<open>
  What the fragment evaluates to where it is consumed: the argument of \<open>JSON.parse\<close> is a
  string literal (a JSON string is a JavaScript string literal with the same value), and
  \<open>JSON.parse\<close> reads the string it denotes.
\<close>

definition decode_fragment :: "'n number_ops \<Rightarrow> jsstring \<Rightarrow> 'n jsvalue option" where
  "decode_fragment N f =
     (case strip_prefix (lit ''module.exports = JSON.parse('') f of
        None \<Rightarrow> None
      | Some r \<Rightarrow>
          (case r of
             [] \<Rightarrow> None
           | q # r1 \<Rightarrow>
               if q \<noteq> dquote then None
               else
                 (case parse_string_chars r1 of
                    None \<Rightarrow> None
                  | Some (t, r2) \<Rightarrow> if r2 = lit '')'' then JSON_parse N t else None)))"

text \<open>
  What the properties ask of the runtime's numbers: the text of a finite number is a JSON
  number token (it starts with a digit or a minus sign and holds only characters of a
  number) that reads back as the number, with \<open>-0\<close> and \<open>0\<close> taken as one number, as
  \<open>===\<close> takes them.
\<close>

definition number_text_ok :: "'n number_ops \<Rightarrow> bool" where
  "number_text_ok N =
     (\<forall>n. num_finite N n \<longrightarrow>
        num_to_string N n \<noteq> []
        \<and> (hd (num_to_string N n) = cu CHR ''-'' \<or> is_digit (hd (num_to_string N n)))
        \<and> (\<forall>c \<in> set (num_to_string N n). is_num_char c)
        \<and> string_to_num N (num_to_string N n) = Some n)"

section \<open>A runtime with integer numbers, and a small project\<close>

text \<open>
  The number operations restricted to integers: \<open>Number::toString\<close> writes an integer in
  decimal, and a JSON number token with neither fraction nor exponent reads as one.
\<close>

function show_nat :: "nat \<Rightarrow> jsstring" where
  "show_nat n = (if n < 10 then [of_nat (48 + n)] else show_nat (n div 10) @ [of_nat (48 + n mod 10)])"
  by pat_completeness auto
termination
  by (relation "measure id") auto

definition show_int :: "int \<Rightarrow> jsstring" where
  "show_int i = (if i < 0 then cu CHR ''-'' # show_nat (nat (- i)) else show_nat (nat i))"

definition digit_value :: "16 word \<Rightarrow> nat option" where
  "digit_value c = (if 48 \<le> unat c \<and> unat c \<le> 57 then Some (unat c - 48) else None)"

fun read_digits :: "jsstring \<Rightarrow> nat \<Rightarrow> nat option" where
  "read_digits [] acc = Some acc"
| "read_digits (c # cs) acc =
     (case digit_value c of None \<Rightarrow> None | Some d \<Rightarrow> read_digits cs (10 * acc + d))"

definition read_nat :: "jsstring \<Rightarrow> nat option" where
  "read_nat s =
     (case s of
        [] \<Rightarrow> None
      | c # r \<Rightarrow> if c = cu CHR ''0'' \<and> r \<noteq> [] then None else read_digits s 0)"

definition read_int :: "jsstring \<Rightarrow> int option" where
  "read_int s =
     (case s of
        [] \<Rightarrow> None
      | c # r \<Rightarrow>
          if c = cu CHR ''-'' then map_option (\<lambda>n. - int n) (read_nat r)
          else map_option int (read_nat s))"

definition int_ops :: "int number_ops" where
  "int_ops =
     \<lparr>num_finite = (\<lambda>n. True), num_truthy = (\<lambda>n. n \<noteq> 0),
      num_to_string = show_int, string_to_num = read_int\<rparr>"

text \<open>
  A project whose alias matcher finds nothing (and throws for the specifier \<open>./boom\<close>), whose
  default resolution returns a relative specifier as it is and nothing otherwise, and whose
  resource loads as \<open>m\<close>.
\<close>

definition demo_config :: config_loader_result where
  "demo_config =
     ConfigLoaderSuccess \<lparr>absoluteBaseUrl = lit ''/app'', paths = [(lit ''@lib/*'', [lit ''missing/*''])]\<rparr>"

definition demo_env :: "config_loader_result \<Rightarrow> int loaded \<Rightarrow> (int, unit) env" where
  "demo_env cfg m =
     \<lparr>loadConfig = cfg,
      createMatchPath =
        (\<lambda>base ps sourcePath rj fe exts.
           if sourcePath = lit ''./boom'' then MatchThrows else MatchReturns None),
      defaultResolvePath =
        (\<lambda>sourcePath currentFile opts.
           if take 1 sourcePath = lit ''.'' then Some sourcePath else None),
      require = (\<lambda>f. None),
      existsSync = (\<lambda>f. Some False),
      requireFromString = (\<lambda>h code filename. m),
      stack_trace = (\<lambda>message. JStr (lit ''Error: '' @ message))\<rparr>"

definition idle :: "(int, unit) world" where
  "idle = \<lparr>hook = None, trace = []\<rparr>"

definition demo_resource :: jsstring where
  "demo_resource = lit ''/app/data.preval.ts''"

definition no_options :: PrevalLoaderOptions where
  "no_options = \<lparr>extensions = None\<rparr>"

text \<open>A validator that accepts everything, for the properties that do not depend on it.\<close>

definition accept_all :: "jsstring \<Rightarrow> int jsvalue \<Rightarrow> raised option" where
  "accept_all resource data = None"

text \<open>
  A rejection with the string \<open>boom\<close>, one with an \<open>Error\<close> object, and one with a
  symbol, which a template literal cannot convert to a string.
\<close>

definition boom_string :: "int thrown" where
  "boom_string =
     \<lparr>typeof_object = False, truthy = True, is_array = False, stack = None,
      description = Some (lit ''boom'')\<rparr>"

definition boom_error :: "int thrown" where
  "boom_error =
     \<lparr>typeof_object = True, truthy = True, is_array = False,
      stack = Some (JStr (lit ''Error: boom at getData'')),
      description = Some (lit ''Error: boom'')\<rparr>"

definition boom_symbol :: "int thrown" where
  "boom_symbol =
     \<lparr>typeof_object = False, truthy = True, is_array = False, stack = None,
      description = None\<rparr>"

definition demo_value :: "int jsvalue" where
  "demo_value = JObj [(lit ''a'', JNum 1), (lit ''b'', JArr [JNum 1, JNum 2, JNum 3])]"

definition demo_text :: jsstring where
  \<open>demo_text = lit ''{"a":1,"b":[1,2,3]}''\<close>

section \<open>Lemmas about the loader\<close>

lemma hook_register: "hook (register opts w) = Some opts"
  by (simp add: register_def)

lemma trace_register: "trace (register opts w) = trace w @ [Register opts]"
  by (simp add: register_def)

text \<open>The handler's result and effects: the diagnostic line, if any.\<close>

lemma catch_block_eq:
  "catch_block resource e w =
     ((case description e of
         None \<Rightarrow> Raised TypeError
       | Some d \<Rightarrow> Raised (PrevalError (failed_message resource d))),
      w\<lparr>trace := trace w
          @ (if isRecord e \<and> stack e \<noteq> None
             then [ConsoleError [JStr (lit ''[next-plugin-preval]''), the (stack e)]] else [])\<rparr>)"
  by (cases "description e") (auto simp add: catch_block_def console_error_def Let_def)

lemma catch_block_Raised: "fst (catch_block resource e w) \<noteq> Suspended"
  by (simp add: catch_block_eq split: option.splits)

text \<open>The \<open>try\<close> block under the registration the loader has just made.\<close>

lemma try_block_registered:
  "try_block N E resource (hook (register (transform_options E options) w)) =
     (case loaded_module E resource options of
        Throws e \<Rightarrow> Throw e
      | Exports d \<Rightarrow>
          (let mod_default = (case d of None \<Rightarrow> Plain JUndefined | Some x \<Rightarrow> x) in
           if \<not> exported_truthy N mod_default
           then Throw (new_PrevalError E no_default_export_message)
           else (case mod_default of
                   Plain v \<Rightarrow> Normal v
                 | Thenable (Fulfilled v) \<Rightarrow> Normal v
                 | Thenable (Rejected e) \<Rightarrow> Throw e
                 | Thenable Never \<Rightarrow> Pending)))"
  by (simp add: try_block_def loaded_module_def hook_register)

text \<open>Every completion of the \<open>try\<close> block but the pending one ends in the teardown.\<close>

lemma evaluate_module_world:
  assumes "evaluate_module N E resource w = (out, w')" and "out \<noteq> Suspended"
  shows "\<exists>logs. w' = w\<lparr>hook := None, trace := trace w @ logs @ [Revert]\<rparr>
                \<and> filter is_revert logs = []"
proof (cases "try_block N E resource (hook w)")
  case (Normal v)
  then have "w' = revert w"
    using assms(1) by (simp add: evaluate_module_def finally_block_def)
  then show ?thesis
    by (intro exI[of _ "[]"]) (simp add: revert_def)
next
  case (Throw e)
  then have "w' = revert (snd (catch_block resource e w))"
    using assms(1) by (auto simp: evaluate_module_def finally_block_def)
  then show ?thesis
    by (intro exI[of _ "if isRecord e \<and> stack e \<noteq> None
           then [ConsoleError [JStr (lit ''[next-plugin-preval]''), the (stack e)]] else []"])
       (simp add: catch_block_eq revert_def)
next
  case Pending
  then show ?thesis
    using assms by (simp add: evaluate_module_def)
qed

lemma evaluate_module_Suspended:
  assumes "evaluate_module N E resource w = (Suspended, w')"
  shows "w' = w"
proof (cases "try_block N E resource (hook w)")
  case (Throw e)
  then show ?thesis
    using assms catch_block_Raised[of resource e w]
    by (auto simp: evaluate_module_def finally_block_def)
qed (use assms in \<open>auto simp: evaluate_module_def finally_block_def\<close>)

lemma prevalLoader_world:
  "snd (prevalLoader N V E content resource options w) =
   snd (evaluate_module N E resource (register (transform_options E options) w))"
  by (simp add: prevalLoader_def Let_def
        split: prod.splits outcome.splits option.splits stringified.splits)

lemma prevalLoader_Suspended:
  "fst (prevalLoader N V E content resource options w) = Suspended \<longleftrightarrow>
   fst (evaluate_module N E resource (register (transform_options E options) w)) = Suspended"
  by (simp add: prevalLoader_def Let_def
        split: prod.splits outcome.splits option.splits stringified.splits)

lemma prevalLoader_Raised:
  assumes "evaluate_module N E resource (register (transform_options E options) w)
           = (Raised err, w2)"
  shows "prevalLoader N V E content resource options w = (Raised err, w2)"
  using assms unfolding prevalLoader_def Let_def by simp

text \<open>The loader when the \<open>try\<close> block throws \<open>e\<close>.\<close>

lemma prevalLoader_caught:
  assumes "try_block N E resource (Some (transform_options E options)) = Throw e"
  shows "prevalLoader N V E content resource options w =
     ((case description e of
         None \<Rightarrow> Raised TypeError
       | Some d \<Rightarrow> Raised (PrevalError (failed_message resource d))),
      w\<lparr>hook := None,
        trace := trace w @ [Register (transform_options E options)]
          @ (if isRecord e \<and> stack e \<noteq> None
             then [ConsoleError [JStr (lit ''[next-plugin-preval]''), the (stack e)]] else [])
          @ [Revert]\<rparr>)"
proof -
  let ?w1 = "register (transform_options E options) w"
  have ev: "evaluate_module N E resource ?w1 = finally_block (catch_block resource e ?w1)"
    using assms by (simp add: evaluate_module_def hook_register)
  show ?thesis
  proof (cases "description e")
    case None
    then show ?thesis
      using prevalLoader_Raised[of N E resource options w TypeError _ V content] ev
      by (simp add: catch_block_eq finally_block_def register_def revert_def)
  next
    case (Some d)
    then show ?thesis
      using prevalLoader_Raised[of N E resource options w
              "PrevalError (failed_message resource d)" _ V content] ev
      by (simp add: catch_block_eq finally_block_def register_def revert_def)
  qed
qed

lemma prevalLoader_failure:
  assumes "loaded_module E resource options = Throws e
           \<or> loaded_module E resource options = Exports (Some (Thenable (Rejected e)))"
  shows "prevalLoader N V E content resource options w =
     ((case description e of
         None \<Rightarrow> Raised TypeError
       | Some d \<Rightarrow> Raised (PrevalError (failed_message resource d))),
      w\<lparr>hook := None,
        trace := trace w @ [Register (transform_options E options)]
          @ (if isRecord e \<and> stack e \<noteq> None
             then [ConsoleError [JStr (lit ''[next-plugin-preval]''), the (stack e)]] else [])
          @ [Revert]\<rparr>)"
proof -
  have "try_block N E resource (Some (transform_options E options)) = Throw e"
    using assms try_block_registered[of N E resource options w]
    by (auto simp add: hook_register Let_def exported_truthy_def)
  from prevalLoader_caught[OF this] show ?thesis .
qed

lemma prevalLoader_no_default:
  assumes "loaded_module E resource options = Exports d"
    and "\<not> exported_truthy N (case d of None \<Rightarrow> Plain JUndefined | Some x \<Rightarrow> x)"
  shows "fst (prevalLoader N V E content resource options w) =
     Raised (PrevalError (lit ''Failed to pre-evaluate '' @ [dquote] @ resource @ [dquote]
        @ lit ''. Error: No default export. Did you forget to `export default`? See above for full stack trace.''))"
proof -
  have "try_block N E resource (Some (transform_options E options))
        = Throw (new_PrevalError E no_default_export_message)"
    using assms try_block_registered[of N E resource options w]
    by (simp add: hook_register Let_def)
  from prevalLoader_caught[OF this] show ?thesis
    by (simp add: new_PrevalError_def failed_message_def no_default_export_message_def lit_def)
qed

lemma resolves_to_evaluate:
  assumes "resolves_to N E resource options v"
  shows "evaluate_module N E resource (register (transform_options E options) w) =
         (Returned v, revert (register (transform_options E options) w))"
proof -
  have "try_block N E resource (hook (register (transform_options E options) w)) = Normal v"
    using assms unfolding try_block_registered
    by (auto simp: resolves_to_def Let_def exported_truthy_def)
  then show ?thesis
    by (simp add: evaluate_module_def finally_block_def)
qed

lemma prevalLoader_resolved:
  assumes "resolves_to N E resource options v"
  shows "prevalLoader N V E content resource options w =
     ((case V resource v of
         Some err \<Rightarrow> Raised err
       | None \<Rightarrow>
           (case JSON_stringify N v of
              ThrowsTypeError \<Rightarrow> Raised TypeError
            | NoText \<Rightarrow> Returned (lit ''module.exports = JSON.parse(undefined)'')
            | Text t \<Rightarrow> Returned (fragment t))),
      revert (register (transform_options E options) w))"
  unfolding prevalLoader_def Let_def resolves_to_evaluate[OF assms]
  by (simp split: option.splits stringified.splits)

lemma data_has_text:
  "is_data N v \<Longrightarrow> \<exists>t. SerializeJSONProperty N v = Text t"
  "(\<forall>v \<in> set vs. is_data N v) \<Longrightarrow> \<exists>ts. SerializeJSONArray N vs = Some ts"
  "(\<forall>(k, v) \<in> set kvs. is_data N v) \<Longrightarrow> \<exists>ts. SerializeJSONObject N kvs = Some ts"
  by (induction N v and N vs and N kvs
      rule: SerializeJSONProperty_SerializeJSONArray_SerializeJSONObject.induct) auto

text \<open>The members of a record of data are written in the order of the record.\<close>

lemma members_in_order:
  "(\<forall>(k, v) \<in> set kvs. is_data N v) \<Longrightarrow>
   SerializeJSONObject N kvs
     = Some (map (\<lambda>(k, v). QuoteJSONString k @ cu CHR '':'' # text_of N v) kvs)"
proof (induction kvs)
  case Nil
  show ?case by simp
next
  case (Cons kv kvs)
  obtain k v where kv: "kv = (k, v)" by (cases kv)
  with Cons.prems obtain t where t: "SerializeJSONProperty N v = Text t"
    using data_has_text(1)[of N v] by auto
  show ?case
    using Cons kv t by (simp add: text_of_def JSON_stringify_def)
qed

lemma record_text_in_order:
  assumes "is_data N (JObj kvs)"
  shows "JSON_stringify N (JObj kvs) =
     Text (cu CHR ''{''
           # join_commas (map (\<lambda>(k, v). QuoteJSONString k @ cu CHR '':'' # text_of N v) kvs)
           @ [cu CHR ''}''])"
  using members_in_order[of kvs N] assms by (simp add: JSON_stringify_def)

text \<open>The registered options, by the result of \<open>loadConfig\<close>.\<close>

lemma transform_options_fail:
  "loadConfig E = ConfigLoaderFail m \<Longrightarrow>
   transform_options E options =
     babel_options (case extensions options of None \<Rightarrow> defaultExtensions | Some x \<Rightarrow> x) None"
  by (simp add: transform_options_def)

lemma transform_options_success:
  "loadConfig E = ConfigLoaderSuccess cfg \<Longrightarrow>
   transform_options E options =
     (let exts = (case extensions options of None \<Rightarrow> defaultExtensions | Some x \<Rightarrow> x) in
      babel_options exts
        (Some \<lparr>plugin_name = lit ''module-resolver'', plugin_extensions = exts,
               resolvePath = moduleResolver_resolvePath E
                 (Some (createMatchPath E (absoluteBaseUrl cfg) (paths cfg))) exts\<rparr>))"
  by (simp add: transform_options_def Let_def)

lemma prevalLoader_registers_first:
  "\<exists>rest. trace (snd (prevalLoader N V E content resource options w)) =
          trace w @ Register (transform_options E options) # rest"
proof -
  let ?w1 = "register (transform_options E options) w"
  obtain out1 w2 where ev: "evaluate_module N E resource ?w1 = (out1, w2)"
    by (cases "evaluate_module N E resource ?w1")
  have "\<exists>rest. trace w2 = trace ?w1 @ rest"
  proof (cases "out1 = Suspended")
    case True
    then have "w2 = ?w1"
      using ev evaluate_module_Suspended by blast
    then show ?thesis by simp
  next
    case False
    from evaluate_module_world[OF ev False] show ?thesis by auto
  qed
  then show ?thesis
    using ev by (auto simp: prevalLoader_world trace_register)
qed

text \<open>The small project, evaluated.\<close>

declare show_nat.simps [simp del]

lemma show_nat_digit: "n < 10 \<Longrightarrow> show_nat n = [of_nat (48 + n)]"
  by (subst show_nat.simps) simp

lemma demo_loaded: "loaded_module (demo_env cfg m) resource options = m"
  by (simp add: loaded_module_def demo_env_def)

lemma demo_value_text: "JSON_stringify int_ops demo_value = Text demo_text"
  by (simp add: JSON_stringify_def demo_value_def demo_text_def int_ops_def show_int_def
        show_nat_digit QuoteJSONString_def escape_unit_def lit_def dquote_def backslash_def
        is_leading_surrogate_def is_trailing_surrogate_def)

section \<open>Lemmas about reading what was written\<close>

text \<open>The four hexadecimal digits of a code unit read back as the code unit.\<close>

lemma hex_digits_sum:
  fixes n :: nat
  shows "((n div 4096 * 16 + n div 256 mod 16) * 16 + n div 16 mod 16) * 16 + n mod 16 = n"
proof -
  have a: "n div 256 = n div 16 div 16" and b: "n div 4096 = n div 16 div 16 div 16"
    by (simp_all add: div_mult2_eq[symmetric])
  show ?thesis
    unfolding a b by (simp only: div_mult_mod_eq)
qed

lemma unat_of_nat_small: "n < 65536 \<Longrightarrow> unat (of_nat n :: 16 word) = n"
  by (simp add: unat_of_nat)

lemma unat_hexdigit: "d < 16 \<Longrightarrow> unat (hexdigit d) = (if d < 10 then 48 + d else 87 + d)"
  unfolding hexdigit_def by (simp add: unat_of_nat_small del: of_nat_add)

lemma hexval_unat:
  "hexval c =
     (if 48 \<le> unat c \<and> unat c \<le> 57 then Some (unat c - 48)
      else if 97 \<le> unat c \<and> unat c \<le> 102 then Some (unat c - 87)
      else if 65 \<le> unat c \<and> unat c \<le> 70 then Some (unat c - 55)
      else None)"
  by (simp add: hexval_def word_le_nat_alt)

lemma hexval_hexdigit: "d < 16 \<Longrightarrow> hexval (hexdigit d) = Some d"
  by (simp add: hexval_unat unat_hexdigit)

lemma hex4_UnicodeEscape:
  "hex4 (hexdigit (unat c div 4096)) (hexdigit (unat c div 256 mod 16))
        (hexdigit (unat c div 16 mod 16)) (hexdigit (unat c mod 16)) = Some c"
proof -
  have "unat c < 65536"
    using unsigned_less[of c] by simp
  then have "unat c div 4096 < 16"
    by simp
  then have "hex4 (hexdigit (unat c div 4096)) (hexdigit (unat c div 256 mod 16))
        (hexdigit (unat c div 16 mod 16)) (hexdigit (unat c mod 16)) =
        Some (of_nat (((unat c div 4096 * 16 + unat c div 256 mod 16) * 16
                        + unat c div 16 mod 16) * 16 + unat c mod 16))"
    unfolding hex4_def
    by (simp only: hexval_hexdigit mod_less_divisor zero_less_numeral prod.case option.case)
  also have "\<dots> = Some c"
    unfolding hex_digits_sum by simp
  finally show ?thesis .
qed

text \<open>
  A quoted string reads back as the string: every escape reads as the code unit it stands
  for, and a surrogate pair, copied as it is, is read as it is.
\<close>

lemma parse_string_chars_dquote: "parse_string_chars (dquote # r) = Some ([], r)"
  by simp

lemma parse_string_chars_backslash: "parse_string_chars (backslash # r) = parse_escape r"
  by (simp add: backslash_def dquote_def)

lemma parse_string_chars_plain:
  "c \<noteq> dquote \<Longrightarrow> c \<noteq> backslash \<Longrightarrow> \<not> c < 0x20 \<Longrightarrow>
   parse_string_chars (c # r) = map_option (apfst (Cons c)) (parse_string_chars r)"
  by simp

lemma parse_escape_u:
  "parse_escape (cu CHR ''u'' # h1 # h2 # h3 # h4 # r) =
     (case hex4 h1 h2 h3 h4 of
        None \<Rightarrow> None
      | Some u \<Rightarrow> map_option (apfst (Cons u)) (parse_string_chars r))"
  by simp

lemma parse_escape_short:
  "unescape e = Some u \<Longrightarrow> e \<noteq> cu CHR ''u'' \<Longrightarrow>
   parse_escape (e # r) = map_option (apfst (Cons u)) (parse_string_chars r)"
  by simp

declare parse_string_chars.simps [simp del] parse_escape.simps [simp del]

lemma parse_UnicodeEscape:
  "parse_string_chars (UnicodeEscape c @ tail) = map_option (apfst (Cons c)) (parse_string_chars tail)"
  by (simp add: UnicodeEscape_def parse_string_chars_backslash parse_escape_u[simplified]
        hex4_UnicodeEscape)

lemma parse_short_escape:
  "unescape e = Some u \<Longrightarrow> e \<noteq> cu CHR ''u'' \<Longrightarrow>
   parse_string_chars ([backslash, e] @ tail) = map_option (apfst (Cons u)) (parse_string_chars tail)"
  by (simp add: parse_string_chars_backslash parse_escape_short)

lemma parse_escape_unit:
  "parse_string_chars (escape_unit c @ tail) = map_option (apfst (Cons c)) (parse_string_chars tail)"
proof -
  consider "c = 0x08" | "c = 0x09" | "c = 0x0A" | "c = 0x0C" | "c = 0x0D" | "c = dquote"
    | "c = backslash"
    | "c \<noteq> 0x08" "c \<noteq> 0x09" "c \<noteq> 0x0A" "c \<noteq> 0x0C" "c \<noteq> 0x0D" "c \<noteq> dquote" "c \<noteq> backslash"
      "c < 0x20 \<or> is_leading_surrogate c \<or> is_trailing_surrogate c"
    | "c \<noteq> 0x08" "c \<noteq> 0x09" "c \<noteq> 0x0A" "c \<noteq> 0x0C" "c \<noteq> 0x0D" "c \<noteq> dquote" "c \<noteq> backslash"
      "\<not> (c < 0x20 \<or> is_leading_surrogate c \<or> is_trailing_surrogate c)"
    by blast
  then show ?thesis
  proof cases
    case 1
    have "escape_unit c = [backslash, cu CHR ''b'']" using 1 by (simp add: escape_unit_def)
    then show ?thesis
      using parse_short_escape[of "cu CHR ''b''" "0x08" tail] 1
      by (simp add: unescape_def dquote_def backslash_def)
  next
    case 2
    have "escape_unit c = [backslash, cu CHR ''t'']" using 2 by (simp add: escape_unit_def)
    then show ?thesis
      using parse_short_escape[of "cu CHR ''t''" "0x09" tail] 2
      by (simp add: unescape_def dquote_def backslash_def)
  next
    case 3
    have "escape_unit c = [backslash, cu CHR ''n'']" using 3 by (simp add: escape_unit_def)
    then show ?thesis
      using parse_short_escape[of "cu CHR ''n''" "0x0A" tail] 3
      by (simp add: unescape_def dquote_def backslash_def)
  next
    case 4
    have "escape_unit c = [backslash, cu CHR ''f'']" using 4 by (simp add: escape_unit_def)
    then show ?thesis
      using parse_short_escape[of "cu CHR ''f''" "0x0C" tail] 4
      by (simp add: unescape_def dquote_def backslash_def)
  next
    case 5
    have "escape_unit c = [backslash, cu CHR ''r'']" using 5 by (simp add: escape_unit_def)
    then show ?thesis
      using parse_short_escape[of "cu CHR ''r''" "0x0D" tail] 5
      by (simp add: unescape_def dquote_def backslash_def)
  next
    case 6
    have "escape_unit c = [backslash, dquote]" using 6 by (simp add: escape_unit_def dquote_def)
    then show ?thesis
      using parse_short_escape[of dquote dquote tail] 6
      by (simp add: unescape_def dquote_def backslash_def)
  next
    case 7
    have "escape_unit c = [backslash, backslash]"
      using 7 by (simp add: escape_unit_def dquote_def backslash_def)
    then show ?thesis
      using parse_short_escape[of backslash backslash tail] 7
      by (simp add: unescape_def dquote_def backslash_def)
  next
    case 8
    then have "escape_unit c = UnicodeEscape c" by (simp add: escape_unit_def)
    then show ?thesis by (simp add: parse_UnicodeEscape)
  next
    case 9
    then have "escape_unit c = [c]" by (simp add: escape_unit_def)
    then show ?thesis using 9 by (simp add: parse_string_chars_plain)
  qed
qed

lemma surrogate_plain:
  "is_leading_surrogate c \<or> is_trailing_surrogate c \<Longrightarrow>
   c \<noteq> dquote \<and> c \<noteq> backslash \<and> \<not> c < 0x20"
  by (auto simp: is_leading_surrogate_def is_trailing_surrogate_def dquote_def backslash_def
        word_le_nat_alt word_less_nat_alt)

lemma parse_quote_units:
  "parse_string_chars (quote_units s @ dquote # rest) = Some (s, rest)"
proof (induction s rule: quote_units.induct)
  case 1
  show ?case by (simp add: parse_string_chars_dquote)
next
  case (2 c)
  show ?case by (simp add: parse_escape_unit parse_string_chars_dquote)
next
  case (3 c d r)
  show ?case
  proof (cases "is_leading_surrogate c \<and> is_trailing_surrogate d")
    case True
    then have "quote_units (c # d # r) = c # d # quote_units r"
      by simp
    then show ?thesis
      using 3(1)[OF True] surrogate_plain[of c] surrogate_plain[of d] True
      by (simp add: parse_string_chars_plain)
  next
    case False
    then have "quote_units (c # d # r) = escape_unit c @ quote_units (d # r)"
      by auto
    then show ?thesis
      using 3(2)[OF False] by (simp add: parse_escape_unit del: quote_units.simps)
  qed
qed

lemma parse_QuoteJSONString:
  "parse_string_chars (tl (QuoteJSONString s) @ rest) = Some (s, rest)"
  by (simp add: QuoteJSONString_def parse_quote_units)

text \<open>
  Reading a value starts at a character that is no white space; the literals, a string
  and the text of a finite number read back as what was written.
\<close>

lemma skip_ws_start: "\<not> is_ws c \<Longrightarrow> skip_ws (c # r) = c # r"
  by (simp add: skip_ws_def)

lemma parse_value_start:
  "\<not> is_ws c \<Longrightarrow>
   parse_value N (Suc n) (c # r) =
     (if c = cu CHR ''n'' then map_option (Pair JNull) (strip_prefix (lit ''ull'') r)
      else if c = cu CHR ''t'' then map_option (Pair (JBool True)) (strip_prefix (lit ''rue'') r)
      else if c = cu CHR ''f'' then map_option (Pair (JBool False)) (strip_prefix (lit ''alse'') r)
      else if c = dquote then map_option (apfst JStr) (parse_string_chars r)
      else if c = cu CHR ''['' then
        (case skip_ws r of
           [] \<Rightarrow> None
         | d # r' \<Rightarrow>
             if d = cu CHR '']'' then Some (JArr [], r')
             else map_option (apfst JArr) (parse_elements N n (d # r')))
      else if c = cu CHR ''{'' then
        (case skip_ws r of
           [] \<Rightarrow> None
         | d # r' \<Rightarrow>
             if d = cu CHR ''}'' then Some (JObj [], r')
             else map_option (apfst (\<lambda>ms. JObj (object_of ms))) (parse_members N n (d # r')))
      else if c = cu CHR ''-'' \<or> is_digit c then parse_number N (c # r)
      else None)"
  by (simp add: skip_ws_start)

declare parse_value.simps [simp del]

lemma parse_null: "parse_value N (Suc n) (lit ''null'' @ rest) = Some (JNull, rest)"
  by (simp add: lit_def parse_value_start is_ws_def strip_prefix_def)

lemma parse_true: "parse_value N (Suc n) (lit ''true'' @ rest) = Some (JBool True, rest)"
  by (simp add: lit_def parse_value_start is_ws_def strip_prefix_def)

lemma parse_false: "parse_value N (Suc n) (lit ''false'' @ rest) = Some (JBool False, rest)"
  by (simp add: lit_def parse_value_start is_ws_def strip_prefix_def)

lemma parse_string: "parse_value N (Suc n) (QuoteJSONString s @ rest) = Some (JStr s, rest)"
  by (simp add: QuoteJSONString_def dquote_def parse_value_start is_ws_def
        parse_quote_units[unfolded dquote_def])

lemma digit_or_minus_start:
  assumes "c = cu CHR ''-'' \<or> is_digit c"
  shows "\<not> is_ws c" "c \<noteq> cu CHR ''n''" "c \<noteq> cu CHR ''t''" "c \<noteq> cu CHR ''f''" "c \<noteq> dquote"
    "c \<noteq> cu CHR ''[''" "c \<noteq> cu CHR ''{''" "c \<noteq> cu CHR '']''"
  using assms by (auto simp: is_digit_def is_ws_def dquote_def word_le_nat_alt)

lemma parse_number_text:
  assumes "number_text_ok N" and "num_finite N x" and "rest = [] \<or> \<not> is_num_char (hd rest)"
  shows "parse_value N (Suc n) (num_to_string N x @ rest) = Some (JNum x, rest)"
proof -
  let ?t = "num_to_string N x"
  from assms(1,2) have t: "?t \<noteq> []" "hd ?t = cu CHR ''-'' \<or> is_digit (hd ?t)"
    "\<forall>c \<in> set ?t. is_num_char c" "string_to_num N ?t = Some x"
    unfolding number_text_ok_def by blast+
  obtain c r where cr: "?t = c # r"
    using t(1) by (cases ?t) auto
  have c: "c = cu CHR ''-'' \<or> is_digit c"
    using t(2) cr by simp
  have tw: "takeWhile is_num_char (?t @ rest) = ?t"
    using t(3) assms(3) by (cases rest) (simp_all add: takeWhile_append2)
  have dw: "dropWhile is_num_char (?t @ rest) = rest"
    using t(3) assms(3) by (cases rest) (simp_all add: dropWhile_append2)
  have "parse_value N (Suc n) (c # r @ rest) = parse_number N (c # r @ rest)"
    using digit_or_minus_start[OF c] c by (simp add: parse_value_start)
  then show ?thesis
    using tw dw t(4) cr by (simp add: parse_number_def)
qed

text \<open>Members with distinct keys make the record that lists them in their order.\<close>

lemma AList_update_fresh: "k \<notin> fst ` set acc \<Longrightarrow> AList.update k v acc = acc @ [(k, v)]"
  by (induction acc) auto

lemma fold_update_distinct:
  "distinct (map fst (acc @ kvs)) \<Longrightarrow>
   fold (\<lambda>(k, v) kvs. AList.update k v kvs) kvs acc = acc @ kvs"
proof (induction kvs arbitrary: acc)
  case Nil
  show ?case by simp
next
  case (Cons kv kvs)
  obtain k v where kv: "kv = (k, v)" by (cases kv)
  have fresh: "k \<notin> fst ` set acc" using Cons.prems kv by auto
  have "distinct (map fst ((acc @ [(k, v)]) @ kvs))" using Cons.prems kv by auto
  from Cons.IH[OF this] show ?case
    using kv by (simp add: AList_update_fresh[OF fresh])
qed

lemma object_of_distinct: "distinct (map fst kvs) \<Longrightarrow> object_of kvs = kvs"
  using fold_update_distinct[of "[]" kvs] by (simp add: object_of_def)

text \<open>One step of reading a sequence and a record, given that the parts read back.\<close>

lemma join_commas_Cons:
  "join_commas (t # ts) @ x = t @ (if ts = [] then x else cu CHR '','' # join_commas ts @ x)"
  by (cases ts) simp_all

lemma length_join_commas_Cons:
  "length (join_commas (t # ts)) = length t + (if ts = [] then 0 else 1 + length (join_commas ts))"
  by (cases ts) simp_all

lemma parse_array:
  assumes "ts = [] \<Longrightarrow> vs = []"
    and "ts \<noteq> [] \<Longrightarrow> join_commas ts \<noteq> [] \<and> \<not> is_ws (hd (join_commas ts))
           \<and> hd (join_commas ts) \<noteq> cu CHR '']''
           \<and> parse_elements N n (join_commas ts @ cu CHR '']'' # rest) = Some (vs, rest)"
  shows "parse_value N (Suc n) ((cu CHR ''['' # join_commas ts @ [cu CHR '']'']) @ rest)
         = Some (JArr vs, rest)"
proof (cases "ts = []")
  case True
  then show ?thesis
    using assms(1) by (simp add: parse_value_start is_ws_def dquote_def skip_ws_start)
next
  case False
  from assms(2)[OF False] obtain d r' where d: "join_commas ts = d # r'" "\<not> is_ws d"
    "d \<noteq> cu CHR '']''"
    and p: "parse_elements N n (join_commas ts @ cu CHR '']'' # rest) = Some (vs, rest)"
    by (cases "join_commas ts") auto
  show ?thesis
    using d p by (simp add: parse_value_start is_ws_def dquote_def skip_ws_start)
qed

lemma parse_object:
  assumes "ts = [] \<Longrightarrow> kvs = []"
    and "ts \<noteq> [] \<Longrightarrow> join_commas ts \<noteq> [] \<and> hd (join_commas ts) = dquote
           \<and> parse_members N n (join_commas ts @ cu CHR ''}'' # rest) = Some (kvs, rest)"
    and "distinct (map fst kvs)"
  shows "parse_value N (Suc n) ((cu CHR ''{'' # join_commas ts @ [cu CHR ''}'']) @ rest)
         = Some (JObj kvs, rest)"
proof (cases "ts = []")
  case True
  then show ?thesis
    using assms(1) by (simp add: parse_value_start is_ws_def dquote_def skip_ws_start)
next
  case False
  from assms(2)[OF False] obtain r' where d: "join_commas ts = dquote # r'"
    and p: "parse_members N n (join_commas ts @ cu CHR ''}'' # rest) = Some (kvs, rest)"
    by (cases "join_commas ts") auto
  show ?thesis
    using d p object_of_distinct[OF assms(3)]
    by (simp add: parse_value_start is_ws_def dquote_def skip_ws_start)
qed

lemma parse_elements_Cons:
  assumes "parse_value N n (t @ (if ts = [] then cu CHR '']'' # rest
                                 else cu CHR '','' # join_commas ts @ cu CHR '']'' # rest))
           = Some (v, (if ts = [] then cu CHR '']'' # rest
                       else cu CHR '','' # join_commas ts @ cu CHR '']'' # rest))"
    and "ts \<noteq> [] \<Longrightarrow> parse_elements N n (join_commas ts @ cu CHR '']'' # rest) = Some (vs, rest)"
    and "ts = [] \<Longrightarrow> vs = []"
  shows "parse_elements N (Suc n) (join_commas (t # ts) @ cu CHR '']'' # rest) = Some (v # vs, rest)"
proof (cases "ts = []")
  case True
  then show ?thesis
    using assms(1,3) by (simp add: skip_ws_start is_ws_def)
next
  case False
  then show ?thesis
    using assms(1,2) by (simp add: join_commas_Cons skip_ws_start is_ws_def)
qed

lemma parse_members_Cons:
  assumes "parse_value N n (t @ (if ts = [] then cu CHR ''}'' # rest
                                 else cu CHR '','' # join_commas ts @ cu CHR ''}'' # rest))
           = Some (v, (if ts = [] then cu CHR ''}'' # rest
                       else cu CHR '','' # join_commas ts @ cu CHR ''}'' # rest))"
    and "ts \<noteq> [] \<Longrightarrow> parse_members N n (join_commas ts @ cu CHR ''}'' # rest) = Some (kvs, rest)"
    and "ts = [] \<Longrightarrow> kvs = []"
  shows "parse_members N (Suc n)
           (join_commas ((QuoteJSONString k @ cu CHR '':'' # t) # ts) @ cu CHR ''}'' # rest)
         = Some ((k, v) # kvs, rest)"
proof -
  have ws: "\<not> is_ws dquote" "\<not> is_ws (cu CHR '':'')" "\<not> is_ws (cu CHR '','')" "\<not> is_ws (cu CHR ''}'')"
    by (simp_all add: is_ws_def dquote_def)
  show ?thesis
  proof (cases "ts = []")
    case True
    then show ?thesis
      using assms(1,3) ws
      by (simp add: QuoteJSONString_def skip_ws_start parse_quote_units)
  next
    case False
    then show ?thesis
      using assms(1,2) ws
      by (simp add: join_commas_Cons QuoteJSONString_def skip_ws_start parse_quote_units)
  qed
qed

declare parse_elements.simps [simp del] parse_members.simps [simp del]

text \<open>
  The text of a data value reads back as the value, with fuel of the length of the text,
  before anything that cannot continue a number; likewise the elements of a sequence and
  the members of a record before their closing bracket.
\<close>

lemma not_num_char_follow:
  "\<not> is_num_char (cu CHR '']'')" "\<not> is_num_char (cu CHR '','')" "\<not> is_num_char (cu CHR ''}'')"
  by (simp_all add: is_num_char_def is_digit_def)

lemma written_reads_back:
  "number_text_ok N \<longrightarrow> is_data N v \<longrightarrow> distinct_keys v \<longrightarrow>
     (\<forall>t. SerializeJSONProperty N v = Text t \<longrightarrow>
        t \<noteq> [] \<and> \<not> is_ws (hd t) \<and> hd t \<noteq> cu CHR '']''
        \<and> (\<forall>n rest. length t \<le> n \<longrightarrow> (rest = [] \<or> \<not> is_num_char (hd rest)) \<longrightarrow>
              parse_value N (Suc n) (t @ rest) = Some (v, rest)))"
  "number_text_ok N \<longrightarrow> (\<forall>v \<in> set vs. is_data N v) \<longrightarrow> (\<forall>v \<in> set vs. distinct_keys v) \<longrightarrow>
     (\<forall>ts. SerializeJSONArray N vs = Some ts \<longrightarrow>
        length ts = length vs
        \<and> (vs \<noteq> [] \<longrightarrow>
             join_commas ts \<noteq> [] \<and> \<not> is_ws (hd (join_commas ts))
             \<and> hd (join_commas ts) \<noteq> cu CHR '']''
             \<and> (\<forall>n rest. length (join_commas ts) + 2 \<le> n \<longrightarrow>
                   parse_elements N n (join_commas ts @ cu CHR '']'' # rest) = Some (vs, rest))))"
  "number_text_ok N \<longrightarrow> (\<forall>(k, v) \<in> set kvs. is_data N v) \<longrightarrow>
   (\<forall>(k, v) \<in> set kvs. distinct_keys v) \<longrightarrow>
     (\<forall>ts. SerializeJSONObject N kvs = Some ts \<longrightarrow>
        length ts = length kvs
        \<and> (kvs \<noteq> [] \<longrightarrow>
             join_commas ts \<noteq> [] \<and> hd (join_commas ts) = dquote
             \<and> (\<forall>n rest. length (join_commas ts) + 2 \<le> n \<longrightarrow>
                   parse_members N n (join_commas ts @ cu CHR ''}'' # rest) = Some (kvs, rest))))"
proof (induction N v and N vs and N kvs
      rule: SerializeJSONProperty_SerializeJSONArray_SerializeJSONObject.induct)
  case (2 N)
  show ?case
    using parse_null[of N] by (auto simp: lit_def is_ws_def)
next
  case (3 N b)
  show ?case
    using parse_true[of N] parse_false[of N] by (cases b) (auto simp: lit_def is_ws_def)
next
  case (4 N x)
  show ?case
  proof (intro impI allI)
    fix t
    assume ok: "number_text_ok N" and d: "is_data N (JNum x)"
      and t: "SerializeJSONProperty N (JNum x) = Text t"
    have fin: "num_finite N x" using d by simp
    then have t': "t = num_to_string N x" using t by simp
    from ok fin have p: "t \<noteq> []" "hd t = cu CHR ''-'' \<or> is_digit (hd t)"
      unfolding number_text_ok_def t' by blast+
    from digit_or_minus_start[OF p(2)] p(1)
    have "t \<noteq> [] \<and> \<not> is_ws (hd t) \<and> hd t \<noteq> cu CHR '']''" by simp
    moreover have "\<forall>n rest. length t \<le> n \<longrightarrow> (rest = [] \<or> \<not> is_num_char (hd rest)) \<longrightarrow>
              parse_value N (Suc n) (t @ rest) = Some (JNum x, rest)"
      using parse_number_text[OF ok fin] t' by simp
    ultimately show "t \<noteq> [] \<and> \<not> is_ws (hd t) \<and> hd t \<noteq> cu CHR '']''
        \<and> (\<forall>n rest. length t \<le> n \<longrightarrow> (rest = [] \<or> \<not> is_num_char (hd rest)) \<longrightarrow>
              parse_value N (Suc n) (t @ rest) = Some (JNum x, rest))" by blast
  qed
next
  case (5 N s)
  show ?case
    using parse_string[of N _ s] by (auto simp: QuoteJSONString_def is_ws_def dquote_def)
next
  case (6 N vs)
  show ?case
  proof (intro impI allI)
    fix t
    assume ok: "number_text_ok N" and d: "is_data N (JArr vs)" and k: "distinct_keys (JArr vs)"
      and t: "SerializeJSONProperty N (JArr vs) = Text t"
    from t obtain ts where ts: "SerializeJSONArray N vs = Some ts"
      and t': "t = cu CHR ''['' # join_commas ts @ [cu CHR '']'']"
      by (auto split: option.splits)
    from 6 ok d k ts have ih: "length ts = length vs"
      "vs \<noteq> [] \<Longrightarrow> join_commas ts \<noteq> [] \<and> \<not> is_ws (hd (join_commas ts))
             \<and> hd (join_commas ts) \<noteq> cu CHR '']''
             \<and> (\<forall>n rest. length (join_commas ts) + 2 \<le> n \<longrightarrow>
                   parse_elements N n (join_commas ts @ cu CHR '']'' # rest) = Some (vs, rest))"
      by auto
    have "parse_value N (Suc n) (t @ rest) = Some (JArr vs, rest)" if "length t \<le> n" for n rest
      unfolding t'
    proof (rule parse_array)
      show "ts = [] \<Longrightarrow> vs = []" using ih(1) by simp
      show "join_commas ts \<noteq> [] \<and> \<not> is_ws (hd (join_commas ts))
           \<and> hd (join_commas ts) \<noteq> cu CHR '']''
           \<and> parse_elements N n (join_commas ts @ cu CHR '']'' # rest) = Some (vs, rest)"
        if "ts \<noteq> []"
      proof -
        have "vs \<noteq> []" using that ih(1) by auto
        moreover have "length (join_commas ts) + 2 \<le> n" using \<open>length t \<le> n\<close> t' by simp
        ultimately show ?thesis using ih(2) by blast
      qed
    qed
    then show "t \<noteq> [] \<and> \<not> is_ws (hd t) \<and> hd t \<noteq> cu CHR '']''
        \<and> (\<forall>n rest. length t \<le> n \<longrightarrow> (rest = [] \<or> \<not> is_num_char (hd rest)) \<longrightarrow>
              parse_value N (Suc n) (t @ rest) = Some (JArr vs, rest))"
      using t' by (simp add: is_ws_def)
  qed
next
  case (7 N kvs)
  show ?case
  proof (intro impI allI)
    fix t
    assume ok: "number_text_ok N" and d: "is_data N (JObj kvs)" and k: "distinct_keys (JObj kvs)"
      and t: "SerializeJSONProperty N (JObj kvs) = Text t"
    from t obtain ts where ts: "SerializeJSONObject N kvs = Some ts"
      and t': "t = cu CHR ''{'' # join_commas ts @ [cu CHR ''}'']"
      by (auto split: option.splits)
    from 7 ok d k ts have ih: "length ts = length kvs"
      "kvs \<noteq> [] \<Longrightarrow> join_commas ts \<noteq> [] \<and> hd (join_commas ts) = dquote
             \<and> (\<forall>n rest. length (join_commas ts) + 2 \<le> n \<longrightarrow>
                   parse_members N n (join_commas ts @ cu CHR ''}'' # rest) = Some (kvs, rest))"
      by auto
    have "parse_value N (Suc n) (t @ rest) = Some (JObj kvs, rest)" if "length t \<le> n" for n rest
      unfolding t'
    proof (rule parse_object)
      show "ts = [] \<Longrightarrow> kvs = []" using ih(1) by simp
      show "distinct (map fst kvs)" using k by simp
      show "join_commas ts \<noteq> [] \<and> hd (join_commas ts) = dquote
           \<and> parse_members N n (join_commas ts @ cu CHR ''}'' # rest) = Some (kvs, rest)"
        if "ts \<noteq> []"
      proof -
        have "kvs \<noteq> []" using that ih(1) by auto
        moreover have "length (join_commas ts) + 2 \<le> n" using \<open>length t \<le> n\<close> t' by simp
        ultimately show ?thesis using ih(2) by blast
      qed
    qed
    then show "t \<noteq> [] \<and> \<not> is_ws (hd t) \<and> hd t \<noteq> cu CHR '']''
        \<and> (\<forall>n rest. length t \<le> n \<longrightarrow> (rest = [] \<or> \<not> is_num_char (hd rest)) \<longrightarrow>
              parse_value N (Suc n) (t @ rest) = Some (JObj kvs, rest))"
      using t' by (simp add: is_ws_def)
  qed
next
  case (13 N v vs)
  show ?case
  proof (intro impI allI)
    fix ts0
    assume ok: "number_text_ok N" and d: "\<forall>v \<in> set (v # vs). is_data N v"
      and k: "\<forall>v \<in> set (v # vs). distinct_keys v"
      and s: "SerializeJSONArray N (v # vs) = Some ts0"
    from d obtain t where t: "SerializeJSONProperty N v = Text t"
      using data_has_text(1)[of N v] by auto
    with s obtain ts where ts: "SerializeJSONArray N vs = Some ts" and ts0: "ts0 = t # ts"
      by auto
    from 13(1) ok d k t have p1: "t \<noteq> []" "\<not> is_ws (hd t)" "hd t \<noteq> cu CHR '']''"
      "\<And>n rest. length t \<le> n \<Longrightarrow> rest = [] \<or> \<not> is_num_char (hd rest) \<Longrightarrow>
              parse_value N (Suc n) (t @ rest) = Some (v, rest)"
      by auto
    from 13(3)[OF t] ok d k ts have p2: "length ts = length vs"
      "vs \<noteq> [] \<Longrightarrow> (\<forall>n rest. length (join_commas ts) + 2 \<le> n \<longrightarrow>
                   parse_elements N n (join_commas ts @ cu CHR '']'' # rest) = Some (vs, rest))"
      by auto
    have hd: "join_commas (t # ts) \<noteq> []" "hd (join_commas (t # ts)) = hd t"
      using p1(1) by (cases ts; simp)+
    have "parse_elements N n (join_commas (t # ts) @ cu CHR '']'' # rest) = Some (v # vs, rest)"
      if n: "length (join_commas (t # ts)) + 2 \<le> n" for n rest
    proof -
      from n p1(1) obtain m where m: "n = Suc (Suc m)" "length t \<le> m"
        "ts \<noteq> [] \<Longrightarrow> length (join_commas ts) + 2 \<le> Suc m"
        by (cases n; cases "n - 1"; cases t; simp add: length_join_commas_Cons split: if_splits)
      let ?rest1 = "if ts = [] then cu CHR '']'' # rest
                    else cu CHR '','' # join_commas ts @ cu CHR '']'' # rest"
      have "parse_value N (Suc m) (t @ ?rest1) = Some (v, ?rest1)"
        by (rule p1(4)[OF m(2)]) (simp add: not_num_char_follow[simplified])
      moreover have "parse_elements N (Suc m) (join_commas ts @ cu CHR '']'' # rest) = Some (vs, rest)"
        if "ts \<noteq> []"
      proof -
        have "vs \<noteq> []" using that p2(1) by auto
        from p2(2)[OF this] m(3)[OF that] show ?thesis by simp
      qed
      moreover have "ts = [] \<Longrightarrow> vs = []" using p2(1) by simp
      ultimately show ?thesis
        unfolding m(1) by (rule parse_elements_Cons)
    qed
    then show "length ts0 = length (v # vs)
        \<and> (v # vs \<noteq> [] \<longrightarrow>
             join_commas ts0 \<noteq> [] \<and> \<not> is_ws (hd (join_commas ts0))
             \<and> hd (join_commas ts0) \<noteq> cu CHR '']''
             \<and> (\<forall>n rest. length (join_commas ts0) + 2 \<le> n \<longrightarrow>
                   parse_elements N n (join_commas ts0 @ cu CHR '']'' # rest) = Some (v # vs, rest)))"
      unfolding ts0 using p1 p2(1) hd by simp
  qed
next
  case (15 N k v kvs)
  show ?case
  proof (intro impI allI)
    fix ts0
    assume ok: "number_text_ok N" and d: "\<forall>(k, v) \<in> set ((k, v) # kvs). is_data N v"
      and dk: "\<forall>(k, v) \<in> set ((k, v) # kvs). distinct_keys v"
      and s: "SerializeJSONObject N ((k, v) # kvs) = Some ts0"
    from d obtain t where t: "SerializeJSONProperty N v = Text t"
      using data_has_text(1)[of N v] by auto
    with s obtain ts where ts: "SerializeJSONObject N kvs = Some ts"
      and ts0: "ts0 = (QuoteJSONString k @ cu CHR '':'' # t) # ts"
      by auto
    from 15(1) ok d dk t have p1: "t \<noteq> []"
      "\<And>n rest. length t \<le> n \<Longrightarrow> rest = [] \<or> \<not> is_num_char (hd rest) \<Longrightarrow>
              parse_value N (Suc n) (t @ rest) = Some (v, rest)"
      by auto
    from 15(3)[OF t] ok d dk ts have p2: "length ts = length kvs"
      "kvs \<noteq> [] \<Longrightarrow> (\<forall>n rest. length (join_commas ts) + 2 \<le> n \<longrightarrow>
                   parse_members N n (join_commas ts @ cu CHR ''}'' # rest) = Some (kvs, rest))"
      by auto
    let ?m = "QuoteJSONString k @ cu CHR '':'' # t"
    have hd: "join_commas (?m # ts) \<noteq> []" "hd (join_commas (?m # ts)) = dquote"
      by (cases ts; simp add: QuoteJSONString_def)+
    have "parse_members N n (join_commas (?m # ts) @ cu CHR ''}'' # rest) = Some ((k, v) # kvs, rest)"
      if n: "length (join_commas (?m # ts)) + 2 \<le> n" for n rest
    proof -
      from n p1(1) obtain m where m: "n = Suc (Suc m)" "length t \<le> m"
        "ts \<noteq> [] \<Longrightarrow> length (join_commas ts) + 2 \<le> Suc m"
        by (cases n; cases "n - 1"; cases t;
            simp add: length_join_commas_Cons QuoteJSONString_def split: if_splits)
      let ?rest1 = "if ts = [] then cu CHR ''}'' # rest
                    else cu CHR '','' # join_commas ts @ cu CHR ''}'' # rest"
      have "parse_value N (Suc m) (t @ ?rest1) = Some (v, ?rest1)"
        by (rule p1(2)[OF m(2)]) (simp add: not_num_char_follow[simplified])
      moreover have "parse_members N (Suc m) (join_commas ts @ cu CHR ''}'' # rest) = Some (kvs, rest)"
        if "ts \<noteq> []"
      proof -
        have "kvs \<noteq> []" using that p2(1) by auto
        from p2(2)[OF this] m(3)[OF that] show ?thesis by simp
      qed
      moreover have "ts = [] \<Longrightarrow> kvs = []" using p2(1) by simp
      ultimately show ?thesis
        unfolding m(1) by (rule parse_members_Cons)
    qed
    then show "length ts0 = length ((k, v) # kvs)
        \<and> ((k, v) # kvs \<noteq> [] \<longrightarrow>
             join_commas ts0 \<noteq> [] \<and> hd (join_commas ts0) = dquote
             \<and> (\<forall>n rest. length (join_commas ts0) + 2 \<le> n \<longrightarrow>
                   parse_members N n (join_commas ts0 @ cu CHR ''}'' # rest)
                   = Some ((k, v) # kvs, rest)))"
      unfolding ts0 using p2(1) hd by simp
  qed
qed simp_all

text \<open>\<open>JSON.parse\<close> of a written text, and the reading of a fragment.\<close>

lemma strip_prefix_append: "strip_prefix p (p @ s) = Some s"
  by (simp add: strip_prefix_def)

lemma JSON_parse_written:
  assumes "number_text_ok N" and "is_data N v" and "distinct_keys v"
  shows "\<exists>t. JSON_stringify N v = Text t \<and> JSON_parse N t = Some v"
proof -
  obtain t where t: "SerializeJSONProperty N v = Text t"
    using data_has_text(1)[OF assms(2)] by blast
  with written_reads_back(1)[of N v] assms
  have "parse_value N (Suc (length t)) (t @ []) = Some (v, [])"
    by blast
  then show ?thesis
    using t by (simp add: JSON_stringify_def JSON_parse_def skip_ws_def)
qed

lemma decode_fragment_fragment: "decode_fragment N (fragment t) = JSON_parse N t"
  by (simp add: decode_fragment_def fragment_def strip_prefix_append QuoteJSONString_def
        parse_quote_units)

section \<open>Lemmas about the integer runtime\<close>

text \<open>The integer runtime writes and reads numbers as the properties ask.\<close>

lemma digit_unit:
  assumes "d < 10"
  shows "is_digit (of_nat (48 + d))" and "digit_value (of_nat (48 + d)) = Some d"
    and "d \<noteq> 0 \<Longrightarrow> (of_nat (48 + d) :: 16 word) \<noteq> cu CHR ''0''"
    and "(of_nat (48 + d) :: 16 word) \<noteq> cu CHR ''-''"
proof -
  have u: "unat (of_nat (48 + d) :: 16 word) = 48 + d"
    using assms by (intro unat_of_nat_small) simp
  show "is_digit (of_nat (48 + d))"
    unfolding is_digit_def word_le_nat_alt u using assms by simp
  show "digit_value (of_nat (48 + d)) = Some d"
    unfolding digit_value_def u using assms by simp
  show "(of_nat (48 + d) :: 16 word) \<noteq> cu CHR ''0''" if "d \<noteq> 0"
  proof
    assume "(of_nat (48 + d) :: 16 word) = cu CHR ''0''"
    then have "unat (of_nat (48 + d) :: 16 word) = unat (cu CHR ''0'' :: 16 word)"
      by (rule arg_cong)
    then show False
      unfolding u using that by simp
  qed
  show "(of_nat (48 + d) :: 16 word) \<noteq> cu CHR ''-''"
  proof
    assume "(of_nat (48 + d) :: 16 word) = cu CHR ''-''"
    then have "unat (of_nat (48 + d) :: 16 word) = unat (cu CHR ''-'' :: 16 word)"
      by (rule arg_cong)
    then show False
      unfolding u by simp
  qed
qed

lemma show_nat_step:
  "\<not> n < 10 \<Longrightarrow> show_nat n = show_nat (n div 10) @ [of_nat (48 + n mod 10)]"
  by (subst show_nat.simps) simp

lemma show_nat_nonempty: "show_nat n \<noteq> []"
  by (cases "n < 10") (simp_all add: show_nat_digit show_nat_step del: of_nat_add)

lemma show_nat_digits: "\<forall>c \<in> set (show_nat n). is_digit c"
proof (induction n rule: show_nat.induct)
  case (1 n)
  show ?case
  proof (cases "n < 10")
    case True
    then show ?thesis
      using digit_unit(1)[of n] by (simp add: show_nat_digit del: of_nat_add)
  next
    case False
    then show ?thesis
      using 1 digit_unit(1)[of "n mod 10"] by (simp add: show_nat_step del: of_nat_add)
  qed
qed

lemma hd_show_nat: "0 < n \<Longrightarrow> hd (show_nat n) \<noteq> cu CHR ''0''"
proof (induction n rule: show_nat.induct)
  case (1 n)
  show ?case
  proof (cases "n < 10")
    case True
    then show ?thesis
      using digit_unit(3)[of n] 1(2) by (simp add: show_nat_digit del: of_nat_add)
  next
    case False
    then have "0 < n div 10" by simp
    from 1(1)[OF False this] show ?thesis
      using False by (simp add: show_nat_step show_nat_nonempty del: of_nat_add)
  qed
qed

lemma read_digits_append:
  "read_digits (xs @ ys) acc =
     (case read_digits xs acc of None \<Rightarrow> None | Some a \<Rightarrow> read_digits ys a)"
  by (induction xs arbitrary: acc) (auto split: option.splits)

lemma read_digits_show_nat: "read_digits (show_nat n) 0 = Some n"
proof (induction n rule: show_nat.induct)
  case (1 n)
  show ?case
  proof (cases "n < 10")
    case True
    then show ?thesis
      using digit_unit(2)[of n] by (simp add: show_nat_digit del: of_nat_add)
  next
    case False
    then show ?thesis
      using 1 digit_unit(2)[of "n mod 10"]
      by (simp add: show_nat_step read_digits_append del: of_nat_add)
  qed
qed

lemma read_nat_show_nat: "read_nat (show_nat n) = Some n"
proof -
  obtain c r where cr: "show_nat n = c # r"
    using show_nat_nonempty[of n] by (cases "show_nat n") auto
  have "r = []" if "c = cu CHR ''0''"
  proof -
    have "n = 0" using hd_show_nat[of n] cr that by auto
    then show ?thesis using cr by (simp add: show_nat_digit)
  qed
  then show ?thesis
    using read_digits_show_nat[of n] cr by (auto simp: read_nat_def)
qed

lemma hd_show_nat_not_minus: "hd (show_nat n) \<noteq> cu CHR ''-''"
proof -
  have "is_digit (hd (show_nat n))"
    using show_nat_digits[of n] show_nat_nonempty[of n] by (cases "show_nat n") auto
  then show ?thesis
    by (auto simp: is_digit_def word_le_nat_alt)
qed

lemma read_int_show_int: "read_int (show_int i) = Some i"
proof (cases "i < 0")
  case True
  then show ?thesis
    by (simp add: show_int_def read_int_def read_nat_show_nat)
next
  case False
  obtain c r where cr: "show_nat (nat i) = c # r"
    using show_nat_nonempty[of "nat i"] by (cases "show_nat (nat i)") auto
  have "c \<noteq> cu CHR ''-''"
    using hd_show_nat_not_minus[of "nat i"] cr by simp
  then show ?thesis
    using False cr read_nat_show_nat[of "nat i"] by (simp add: show_int_def read_int_def)
qed

lemma int_ops_ok: "number_text_ok int_ops"
proof -
  have "show_int i \<noteq> []" for i
    by (simp add: show_int_def show_nat_nonempty)
  moreover have "hd (show_int i) = cu CHR ''-'' \<or> is_digit (hd (show_int i))" for i
    using show_nat_digits[of "nat i"] show_nat_nonempty[of "nat i"]
    by (cases "show_nat (nat i)") (auto simp: show_int_def)
  moreover have "\<forall>c \<in> set (show_int i). is_num_char c" for i
    using show_nat_digits[of "nat i"] show_nat_digits[of "nat (- i)"]
    by (auto simp: show_int_def is_num_char_def)
  ultimately show ?thesis
    by (simp add: number_text_ok_def int_ops_def read_int_show_int)
qed

section \<open>Lemmas about the validator\<close>

text \<open>
  The validator accepts data, and rejects everything else at a path that leads to a value
  with a shape that is no data.
\<close>

lemma validate_accepts_data:
  "is_data N v \<Longrightarrow> validate N resource path v = None"
  "(\<forall>v \<in> set vs. is_data N v) \<Longrightarrow> validate_elements N resource path i vs = None"
  "(\<forall>(k, v) \<in> set kvs. is_data N v) \<Longrightarrow> validate_members N resource path kvs = None"
  by (induction N resource path v and N resource path i vs and N resource path kvs
      rule: validate_validate_elements_validate_members.induct) auto

lemma validate_rejects:
  "\<not> is_data N v \<Longrightarrow> distinct_keys v \<Longrightarrow>
     \<exists>q sh b. validate N resource path v = Some (SerializationFailure resource (path @ q) sh)
       \<and> value_at v q = Some b \<and> non_data_shape N b = Some sh"
  "\<not> (\<forall>v \<in> set vs. is_data N v) \<Longrightarrow> (\<forall>v \<in> set vs. distinct_keys v) \<Longrightarrow>
     \<exists>j q sh b. validate_elements N resource path i vs
         = Some (SerializationFailure resource (path @ Index (i + j) # q) sh)
       \<and> j < length vs \<and> value_at (vs ! j) q = Some b \<and> non_data_shape N b = Some sh"
  "\<not> (\<forall>(k, v) \<in> set kvs. is_data N v) \<Longrightarrow> distinct (map fst kvs) \<Longrightarrow>
   (\<forall>(k, v) \<in> set kvs. distinct_keys v) \<Longrightarrow>
     \<exists>k c q sh b. validate_members N resource path kvs
         = Some (SerializationFailure resource (path @ Key k # q) sh)
       \<and> map_of kvs k = Some c \<and> value_at c q = Some b \<and> non_data_shape N b = Some sh"
proof (induction N resource path v and N resource path i vs and N resource path kvs
      rule: validate_validate_elements_validate_members.induct)
  case (5 N resource path vs)
  from 5(2,3) have "\<not> (\<forall>v \<in> set vs. is_data N v)" "\<forall>v \<in> set vs. distinct_keys v"
    by auto
  from 5(1)[OF this] obtain j q sh b where
    "validate_elements N resource path 0 vs
         = Some (SerializationFailure resource (path @ Index (0 + j) # q) sh)"
    "j < length vs" "value_at (vs ! j) q = Some b" "non_data_shape N b = Some sh" by blast
  then show ?case
    by (intro exI[of _ "Index j # q"] exI[of _ sh] exI[of _ b]) simp
next
  case (6 N resource path kvs)
  from 6(2,3) have "\<not> (\<forall>(k, v) \<in> set kvs. is_data N v)" "distinct (map fst kvs)"
    "\<forall>(k, v) \<in> set kvs. distinct_keys v"
    by auto
  from 6(1)[OF this] obtain k c q sh b where
    "validate_members N resource path kvs
         = Some (SerializationFailure resource (path @ Key k # q) sh)"
    "map_of kvs k = Some c" "value_at c q = Some b" "non_data_shape N b = Some sh" by blast
  then show ?case
    by (intro exI[of _ "Key k # q"] exI[of _ sh] exI[of _ b]) simp
next
  case (13 N resource path i v vs)
  show ?case
  proof (cases "is_data N v")
    case True
    then have none: "validate N resource (path @ [Index i]) v = None"
      by (rule validate_accepts_data(1))
    from True 13(3,4) have "\<not> (\<forall>v \<in> set vs. is_data N v)" "\<forall>v \<in> set vs. distinct_keys v"
      by auto
    from 13(2)[OF none this] obtain j q sh b where
      "validate_elements N resource path (Suc i) vs
         = Some (SerializationFailure resource (path @ Index (Suc i + j) # q) sh)"
      "j < length vs" "value_at (vs ! j) q = Some b" "non_data_shape N b = Some sh" by blast
    then show ?thesis
      using none
      by (intro exI[of _ "Suc j"] exI[of _ q] exI[of _ sh] exI[of _ b]) simp
  next
    case False
    moreover have "distinct_keys v" using 13(4) by simp
    ultimately obtain q sh b where
      "validate N resource (path @ [Index i]) v
         = Some (SerializationFailure resource ((path @ [Index i]) @ q) sh)"
      "value_at v q = Some b" "non_data_shape N b = Some sh"
      using 13(1) by blast
    then show ?thesis
      by (intro exI[of _ 0] exI[of _ q] exI[of _ sh] exI[of _ b]) simp
  qed
next
  case (15 N resource path k v kvs)
  show ?case
  proof (cases "is_data N v")
    case True
    then have none: "validate N resource (path @ [Key k]) v = None"
      by (rule validate_accepts_data(1))
    from True 15(3,4,5) have "\<not> (\<forall>(k, v) \<in> set kvs. is_data N v)" "distinct (map fst kvs)"
      "\<forall>(k, v) \<in> set kvs. distinct_keys v"
      by auto
    from 15(2)[OF none this] obtain k' c q sh b where
      r: "validate_members N resource path kvs
         = Some (SerializationFailure resource (path @ Key k' # q) sh)"
      "map_of kvs k' = Some c" "value_at c q = Some b" "non_data_shape N b = Some sh" by blast
    from r(2) have "k' \<in> fst ` set kvs" by (metis domI dom_map_of_conv_image_fst)
    with 15(4) have "k' \<noteq> k" by auto
    then show ?thesis
      using none r
      by (intro exI[of _ k'] exI[of _ c] exI[of _ q] exI[of _ sh] exI[of _ b]) simp
  next
    case False
    moreover have "distinct_keys v" using 15(5) by simp
    ultimately obtain q sh b where
      "validate N resource (path @ [Key k]) v
         = Some (SerializationFailure resource ((path @ [Key k]) @ q) sh)"
      "value_at v q = Some b" "non_data_shape N b = Some sh"
      using 15(1) by blast
    then show ?thesis
      by (intro exI[of _ k] exI[of _ v] exI[of _ q] exI[of _ sh] exI[of _ b]) simp
  qed
qed (auto intro: exI[of _ "[]"])

section \<open>Properties\<close>

text \<open>
  C1. The teardown of the transform session runs exactly once on every exit path of module
  execution. Whenever \<open>_prevalLoader\<close> returns a fragment or raises an error (the module
  loaded and its default export resolved, it had no default export, loading threw, or the
  exported computation rejected), the effects it added to the trace hold exactly one
  \<open>revert\<close>, it is the last of them, and the registration is inactive afterwards.
\<close>

theorem teardown_exactly_once:
  assumes "prevalLoader N V E content resource options w = (out, w')" and "out \<noteq> Suspended"
  shows "hook w' = None \<and>
         (\<exists>evs. trace w' = trace w @ evs \<and> length (filter is_revert evs) = 1
                \<and> last evs = Revert)"
proof -
  let ?w1 = "register (transform_options E options) w"
  obtain out1 w2 where ev: "evaluate_module N E resource ?w1 = (out1, w2)"
    by (cases "evaluate_module N E resource ?w1")
  have w2: "w' = w2"
    using assms(1) ev prevalLoader_world[of N V E content resource options w] by simp
  have "out1 \<noteq> Suspended"
    using assms ev prevalLoader_Suspended[of N V E content resource options w] by simp
  from evaluate_module_world[OF ev this] obtain logs where
    l: "w2 = ?w1\<lparr>hook := None, trace := trace ?w1 @ logs @ [Revert]\<rparr>"
       "filter is_revert logs = []"
    by blast
  let ?evs = "Register (transform_options E options) # logs @ [Revert]"
  have "trace w' = trace w @ ?evs"
    using l w2 by (simp add: trace_register)
  moreover have "length (filter is_revert ?evs) = 1"
    using l(2) by simp
  moreover have "last ?evs = Revert"
    by simp
  moreover have "hook w' = None"
    using l w2 by simp
  ultimately show ?thesis by blast
qed

text \<open>
  An evaluation whose exported computation rejects with an \<open>Error\<close>, started while a
  registration left by someone else is active: one teardown, and no registration after it.
\<close>

theorem teardown_exactly_once_witness:
  "fst (prevalLoader int_ops accept_all
          (demo_env demo_config (Exports (Some (Thenable (Rejected boom_error)))))
          [] demo_resource no_options
          (idle\<lparr>hook := Some (babel_options [] None)\<rparr>)) \<noteq> Suspended
   \<and> hook (snd (prevalLoader int_ops accept_all
          (demo_env demo_config (Exports (Some (Thenable (Rejected boom_error)))))
          [] demo_resource no_options
          (idle\<lparr>hook := Some (babel_options [] None)\<rparr>))) = None
   \<and> length (filter is_revert (trace (snd (prevalLoader int_ops accept_all
          (demo_env demo_config (Exports (Some (Thenable (Rejected boom_error)))))
          [] demo_resource no_options
          (idle\<lparr>hook := Some (babel_options [] None)\<rparr>))))) = 1"
proof -
  let ?E = "demo_env demo_config (Exports (Some (Thenable (Rejected boom_error))))"
  let ?w = "idle\<lparr>hook := Some (babel_options [] None)\<rparr>"
  let ?r = "prevalLoader int_ops accept_all ?E [] demo_resource no_options ?w"
  have run: "?r = (fst ?r, snd ?r)"
    by simp
  have "loaded_module ?E demo_resource no_options = Throws boom_error
        \<or> loaded_module ?E demo_resource no_options
          = Exports (Some (Thenable (Rejected boom_error)))"
    by (simp add: demo_loaded)
  from prevalLoader_failure[OF this, of int_ops accept_all "[]" ?w]
  have out: "fst ?r \<noteq> Suspended"
    by (simp add: boom_error_def)
  from teardown_exactly_once[OF run out]
  have "hook (snd ?r) = None"
    and "\<exists>evs. trace (snd ?r) = trace ?w @ evs \<and> length (filter is_revert evs) = 1
               \<and> last evs = Revert"
    by blast+
  then show ?thesis
    using out by (auto simp: idle_def)
qed

text \<open>
  C2. For every value \<open>v\<close> built only from plain string-keyed records, ordered sequences,
  strings, finite numbers, booleans and \<open>null\<close>, \<open>JSON.stringify\<close> gives a text, the
  fragment that \<open>_prevalLoader\<close> returns for \<open>v\<close> is the template around that text quoted
  once more, and reading the fragment (the string literal, then \<open>JSON.parse\<close> of the
  string) gives \<open>v\<close> again. The runtime's number operations are a parameter: the text of a
  finite number has to be a number token that reads back as the number.
\<close>

theorem fragment_round_trip:
  assumes "number_text_ok N" and "is_data N v" and "distinct_keys v"
  shows "\<exists>t. JSON_stringify N v = Text t
           \<and> decode_fragment N (fragment t) = Some v
           \<and> (resolves_to N E resource options v \<longrightarrow> V resource v = None \<longrightarrow>
                fst (prevalLoader N V E content resource options w) = Returned (fragment t))"
proof -
  from JSON_parse_written[OF assms] obtain t where
    t: "JSON_stringify N v = Text t" "JSON_parse N t = Some v"
    by blast
  have "decode_fragment N (fragment t) = Some v"
    using t(2) by (simp add: decode_fragment_fragment)
  moreover have "fst (prevalLoader N V E content resource options w) = Returned (fragment t)"
    if "resolves_to N E resource options v" and "V resource v = None"
    using that t(1) by (simp add: prevalLoader_resolved)
  ultimately show ?thesis
    using t(1) by (intro exI[of _ t]) simp
qed

text \<open>
  The scenario of the specification: the resource exports a promise of
  \<open>{ a: 1, b: [1,2,3] }\<close>; the fragment is returned and reads back as that value.
\<close>

theorem fragment_round_trip_witness:
  \<open>number_text_ok int_ops
   \<and> is_data int_ops demo_value
   \<and> distinct_keys demo_value
   \<and> resolves_to int_ops (demo_env demo_config (Exports (Some (Thenable (Fulfilled demo_value)))))
       demo_resource no_options demo_value
   \<and> accept_all demo_resource demo_value = None
   \<and> fst (prevalLoader int_ops accept_all
            (demo_env demo_config (Exports (Some (Thenable (Fulfilled demo_value)))))
            [] demo_resource no_options idle)
     = Returned (fragment (lit ''{"a":1,"b":[1,2,3]}''))
   \<and> decode_fragment int_ops (fragment (lit ''{"a":1,"b":[1,2,3]}''))
     = Some (JObj [(lit ''a'', JNum 1), (lit ''b'', JArr [JNum 1, JNum 2, JNum 3])])\<close>
proof -
  let ?E = "demo_env demo_config (Exports (Some (Thenable (Fulfilled demo_value))))"
  have d: "is_data int_ops demo_value" and k: "distinct_keys demo_value"
    by (simp_all add: demo_value_def int_ops_def lit_def)
  have r: "resolves_to int_ops ?E demo_resource no_options demo_value"
    by (simp add: resolves_to_def demo_loaded)
  have a: "accept_all demo_resource demo_value = None"
    by (simp add: accept_all_def)
  from fragment_round_trip[OF int_ops_ok d k, of ?E demo_resource no_options accept_all "[]" idle]
  obtain t where t: "JSON_stringify int_ops demo_value = Text t"
    and f: "decode_fragment int_ops (fragment t) = Some demo_value"
       "fst (prevalLoader int_ops accept_all ?E [] demo_resource no_options idle)
        = Returned (fragment t)"
    using r a by blast
  from t have "t = demo_text"
    by (simp add: demo_value_text)
  with f have "decode_fragment int_ops (fragment demo_text) = Some demo_value"
    and "fst (prevalLoader int_ops accept_all ?E [] demo_resource no_options idle)
         = Returned (fragment demo_text)"
    by simp_all
  then show ?thesis
    using int_ops_ok d k r a unfolding demo_text_def demo_value_def by simp
qed

text \<open>
  C3. For every resolved value that holds a callable, a circular reference or another
  construct that is not data, the validator fails with a serialization failure that names
  the resource and a path; the path leads, from the root of the value, to a value that is
  itself such a construct, and the failure names its shape. \<open>_prevalLoader\<close>, run with
  this validator on a module whose default export resolves to the value, raises that
  failure and returns no fragment.
\<close>

theorem non_data_rejected:
  assumes "\<not> is_data N v" and "distinct_keys v"
  shows "\<exists>path sh b.
           isSerializable N resource v = Some (SerializationFailure resource path sh)
           \<and> value_at v path = Some b \<and> non_data_shape N b = Some sh
           \<and> (resolves_to N E resource options v \<longrightarrow>
                fst (prevalLoader N (isSerializable N) E content resource options w)
                = Raised (SerializationFailure resource path sh))"
proof -
  from validate_rejects(1)[OF assms, of resource "[]"] obtain path sh b where
    p: "isSerializable N resource v = Some (SerializationFailure resource path sh)"
       "value_at v path = Some b" "non_data_shape N b = Some sh"
    by (auto simp: isSerializable_def)
  have "fst (prevalLoader N (isSerializable N) E content resource options w)
        = Raised (SerializationFailure resource path sh)"
    if "resolves_to N E resource options v"
    using p(1) by (simp add: prevalLoader_resolved[OF that])
  then show ?thesis
    using p by blast
qed

text \<open>
  The scenario of the specification: the resource exports a promise of \<open>{ fn: () => 1 }\<close>,
  and the failure refers to the path \<open>fn\<close>.
\<close>

theorem non_data_rejected_witness:
  "\<not> is_data int_ops (JObj [(lit ''fn'', JFunction)])
   \<and> distinct_keys (JObj [(lit ''fn'', JFunction :: int jsvalue)])
   \<and> resolves_to int_ops
       (demo_env demo_config (Exports (Some (Thenable (Fulfilled (JObj [(lit ''fn'', JFunction)])))))) 
       demo_resource no_options (JObj [(lit ''fn'', JFunction)])
   \<and> isSerializable int_ops demo_resource (JObj [(lit ''fn'', JFunction)])
     = Some (SerializationFailure demo_resource [Key (lit ''fn'')] Callable)
   \<and> value_at (JObj [(lit ''fn'', JFunction :: int jsvalue)]) [Key (lit ''fn'')] = Some JFunction
   \<and> fst (prevalLoader int_ops (isSerializable int_ops)
            (demo_env demo_config (Exports (Some (Thenable (Fulfilled (JObj [(lit ''fn'', JFunction)]))))))
            [] demo_resource no_options idle)
     = Raised (SerializationFailure demo_resource [Key (lit ''fn'')] Callable)"
proof -
  let ?v = "JObj [(lit ''fn'', JFunction)] :: int jsvalue"
  let ?E = "demo_env demo_config (Exports (Some (Thenable (Fulfilled ?v))))"
  have d: "\<not> is_data int_ops ?v" and k: "distinct_keys ?v"
    by simp_all
  have r: "resolves_to int_ops ?E demo_resource no_options ?v"
    by (simp add: resolves_to_def demo_loaded)
  have s: "isSerializable int_ops demo_resource ?v
           = Some (SerializationFailure demo_resource [Key (lit ''fn'')] Callable)"
    by (simp add: isSerializable_def)
  from non_data_rejected[OF d k, of demo_resource ?E no_options "[]" idle]
  obtain path sh where
    "isSerializable int_ops demo_resource ?v = Some (SerializationFailure demo_resource path sh)"
    and "fst (prevalLoader int_ops (isSerializable int_ops) ?E [] demo_resource no_options idle)
         = Raised (SerializationFailure demo_resource path sh)"
    using r by blast
  then have "fst (prevalLoader int_ops (isSerializable int_ops) ?E [] demo_resource no_options idle)
             = Raised (SerializationFailure demo_resource [Key (lit ''fn'')] Callable)"
    using s by simp
  moreover have "value_at ?v [Key (lit ''fn'')] = Some JFunction"
    by simp
  ultimately show ?thesis
    using d k r s by blast
qed

text \<open>
  C4, as the code has it. With an alias configuration loaded, the registered plugin's
  \<open>resolvePath\<close> returns the result of \<open>defaultResolvePath\<close> when the alias matcher throws;
  when the matcher returns (a path, or \<open>undefined\<close> because no pattern matches or no
  candidate exists), \<open>resolvePath\<close> returns that result itself and does not consult
  \<open>defaultResolvePath\<close>.
\<close>

theorem alias_fallback:
  assumes "loadConfig E = ConfigLoaderSuccess cfg"
  shows "\<exists>p. plugins (transform_options E options) = [p]
       \<and> resolvePath p sourcePath currentFile opts =
           (case createMatchPath E (absoluteBaseUrl cfg) (paths cfg) sourcePath (readJson E)
                   (fileExists E)
                   (case extensions options of None \<Rightarrow> defaultExtensions | Some x \<Rightarrow> x) of
              MatchThrows \<Rightarrow> defaultResolvePath E sourcePath currentFile opts
            | MatchReturns r \<Rightarrow> r)"
  by (simp add: transform_options_success[OF assms] Let_def babel_options_def
        moduleResolver_resolvePath_def split: match_result.splits)

text \<open>
  In the small project the matcher throws for \<open>./boom\<close>, and the registered \<open>resolvePath\<close>
  gives what the default strategy gives, the specifier itself.
\<close>

theorem alias_fallback_witness:
  "loadConfig (demo_env demo_config (Exports None)) =
     ConfigLoaderSuccess
       \<lparr>absoluteBaseUrl = lit ''/app'', paths = [(lit ''@lib/*'', [lit ''missing/*''])]\<rparr>
   \<and> length (plugins (transform_options (demo_env demo_config (Exports None)) no_options)) = 1
   \<and> resolvePath (hd (plugins (transform_options (demo_env demo_config (Exports None)) no_options)))
       (lit ''./boom'') (lit ''/app/a.ts'') () = Some (lit ''./boom'')"
proof -
  let ?E = "demo_env demo_config (Exports None)"
  let ?cfg = "\<lparr>absoluteBaseUrl = lit ''/app'', paths = [(lit ''@lib/*'', [lit ''missing/*''])]\<rparr>"
  have cfg: "loadConfig ?E = ConfigLoaderSuccess ?cfg"
    by (simp add: demo_env_def demo_config_def)
  from alias_fallback[OF cfg, of no_options "lit ''./boom''" "lit ''/app/a.ts''" "()"]
  obtain p where "plugins (transform_options ?E no_options) = [p]"
    and "resolvePath p (lit ''./boom'') (lit ''/app/a.ts'') () = Some (lit ''./boom'')"
    by (auto simp: demo_env_def lit_def)
  then show ?thesis
    using cfg by simp
qed

text \<open>
  C4 as stated fails where the matcher returns nothing: for the relative specifier \<open>./x\<close>
  no alias pattern matches, the registered \<open>resolvePath\<close> returns \<open>undefined\<close>, and the
  default strategy would have returned \<open>./x\<close>.
\<close>

theorem alias_fallback_counterexample:
  "createMatchPath (demo_env demo_config (Exports None)) (lit ''/app'')
       [(lit ''@lib/*'', [lit ''missing/*''])] (lit ''./x'')
       (readJson (demo_env demo_config (Exports None)))
       (fileExists (demo_env demo_config (Exports None))) defaultExtensions
     = MatchReturns None
   \<and> resolvePath (hd (plugins (transform_options (demo_env demo_config (Exports None)) no_options)))
       (lit ''./x'') (lit ''/app/a.ts'') () = None
   \<and> defaultResolvePath (demo_env demo_config (Exports None)) (lit ''./x'') (lit ''/app/a.ts'') ()
     = Some (lit ''./x'')"
  by (simp add: transform_options_def demo_env_def demo_config_def no_options_def Let_def
        babel_options_def moduleResolver_resolvePath_def lit_def)

text \<open>
  C5. A target module that loads but has no default export makes \<open>_prevalLoader\<close> fail with
  a \<open>PrevalError\<close> whose message mentions the missing default export: the error thrown in
  the \<open>try\<close> block is caught by the handler of the same block and wrapped.
\<close>

theorem missing_default_export:
  assumes "loaded_module E resource options = Exports None"
  shows "fst (prevalLoader N V E content resource options w) =
     Raised (PrevalError (lit ''Failed to pre-evaluate '' @ [dquote] @ resource @ [dquote]
        @ lit ''. Error: No default export. Did you forget to `export default`? See above for full stack trace.''))"
  using prevalLoader_no_default[OF assms, of N] by (simp add: exported_truthy_def)

theorem missing_default_export_witness:
  \<open>loaded_module (demo_env demo_config (Exports None)) demo_resource no_options = Exports None
   \<and> fst (prevalLoader int_ops accept_all (demo_env demo_config (Exports None)) []
            demo_resource no_options idle) =
     Raised (PrevalError (lit ''Failed to pre-evaluate "/app/data.preval.ts". Error: No default export. Did you forget to `export default`? See above for full stack trace.''))\<close>
proof -
  have m: "loaded_module (demo_env demo_config (Exports None)) demo_resource no_options
           = Exports None"
    by (simp add: demo_loaded)
  from missing_default_export[OF m, of int_ops accept_all "[]" idle] show ?thesis
    using m by (simp add: demo_resource_def lit_def dquote_def)
qed

text \<open>
  C6, as the code has it. When loading the target module throws a value \<open>e\<close>, or its
  default export rejects with \<open>e\<close>, and \<open>e\<close> converts to the string \<open>d\<close>, then
  \<open>_prevalLoader\<close> fails with a \<open>PrevalError\<close> whose message embeds the resource path and
  \<open>d\<close>. The diagnostic line, with the tag \<open>[next-plugin-preval]\<close> and \<open>e.stack\<close>, is
  written before the teardown and the raise exactly when \<open>e\<close> is an object that is not
  an array and has a \<open>stack\<close> property; for any other \<open>e\<close> nothing is written.
\<close>

theorem execution_failure:
  assumes "loaded_module E resource options = Throws e
           \<or> loaded_module E resource options = Exports (Some (Thenable (Rejected e)))"
    and "description e = Some d"
  shows "prevalLoader N V E content resource options w =
     (Raised (PrevalError (lit ''Failed to pre-evaluate '' @ [dquote] @ resource @ [dquote]
         @ lit ''. '' @ d @ lit '' See above for full stack trace.'')),
      w\<lparr>hook := None,
        trace := trace w @ [Register (transform_options E options)]
          @ (if isRecord e \<and> stack e \<noteq> None
             then [ConsoleError [JStr (lit ''[next-plugin-preval]''), the (stack e)]] else [])
          @ [Revert]\<rparr>)"
  using prevalLoader_failure[OF assms(1), of N V content w] assms(2)
  by (simp add: failed_message_def)

text \<open>A rejection with an \<open>Error\<close>: the line is written, then the teardown runs.\<close>

theorem execution_failure_witness:
  \<open>loaded_module (demo_env demo_config (Exports (Some (Thenable (Rejected boom_error)))))
       demo_resource no_options = Exports (Some (Thenable (Rejected boom_error)))
   \<and> description boom_error = Some (lit ''Error: boom'')
   \<and> fst (prevalLoader int_ops accept_all
            (demo_env demo_config (Exports (Some (Thenable (Rejected boom_error)))))
            [] demo_resource no_options idle) =
       Raised (PrevalError (lit ''Failed to pre-evaluate "/app/data.preval.ts". Error: boom See above for full stack trace.''))
   \<and> tl (trace (snd (prevalLoader int_ops accept_all
            (demo_env demo_config (Exports (Some (Thenable (Rejected boom_error)))))
            [] demo_resource no_options idle))) =
       [ConsoleError [JStr (lit ''[next-plugin-preval]''), JStr (lit ''Error: boom at getData'')],
        Revert]\<close>
proof -
  let ?E = "demo_env demo_config (Exports (Some (Thenable (Rejected boom_error))))"
  have m: "loaded_module ?E demo_resource no_options = Throws boom_error
           \<or> loaded_module ?E demo_resource no_options
             = Exports (Some (Thenable (Rejected boom_error)))"
    by (simp add: demo_loaded)
  have d: "description boom_error = Some (lit ''Error: boom'')"
    by (simp add: boom_error_def)
  from execution_failure[OF m d, of int_ops accept_all "[]" idle] show ?thesis
    using d by (simp add: demo_loaded demo_resource_def lit_def dquote_def idle_def
                  boom_error_def isRecord_def)
qed

text \<open>
  C6 as stated fails for a rejection with a value that is not an object: the promise
  rejects with the string \<open>boom\<close>, the loader fails with the \<open>PrevalError\<close>, and no
  diagnostic line is written. For a rejection with a symbol the template literal of the
  message throws, and the error raised is that \<open>TypeError\<close>.
\<close>

theorem execution_failure_counterexample:
  \<open>fst (prevalLoader int_ops accept_all
          (demo_env demo_config (Exports (Some (Thenable (Rejected boom_string)))))
          [] demo_resource no_options idle) =
     Raised (PrevalError (lit ''Failed to pre-evaluate "/app/data.preval.ts". boom See above for full stack trace.''))
   \<and> filter is_console_error (trace (snd (prevalLoader int_ops accept_all
          (demo_env demo_config (Exports (Some (Thenable (Rejected boom_string)))))
          [] demo_resource no_options idle))) = []
   \<and> fst (prevalLoader int_ops accept_all
          (demo_env demo_config (Exports (Some (Thenable (Rejected boom_symbol)))))
          [] demo_resource no_options idle) = Raised TypeError\<close>
proof -
  let ?E = "demo_env demo_config (Exports (Some (Thenable (Rejected boom_string))))"
  let ?E' = "demo_env demo_config (Exports (Some (Thenable (Rejected boom_symbol))))"
  have "loaded_module ?E demo_resource no_options = Throws boom_string
        \<or> loaded_module ?E demo_resource no_options
          = Exports (Some (Thenable (Rejected boom_string)))"
    by (simp add: demo_loaded)
  from prevalLoader_failure[OF this, of int_ops accept_all "[]" idle]
  have 1: "fst (prevalLoader int_ops accept_all ?E [] demo_resource no_options idle) =
     Raised (PrevalError (lit ''Failed to pre-evaluate '' @ [dquote] @ demo_resource @ [dquote]
        @ lit ''. boom See above for full stack trace.''))"
    and 2: "filter is_console_error
       (trace (snd (prevalLoader int_ops accept_all ?E [] demo_resource no_options idle))) = []"
    by (simp_all add: boom_string_def isRecord_def failed_message_def lit_def idle_def)
  have "loaded_module ?E' demo_resource no_options = Throws boom_symbol
        \<or> loaded_module ?E' demo_resource no_options
          = Exports (Some (Thenable (Rejected boom_symbol)))"
    by (simp add: demo_loaded)
  from prevalLoader_failure[OF this, of int_ops accept_all "[]" idle]
  have 3: "fst (prevalLoader int_ops accept_all ?E' [] demo_resource no_options idle)
           = Raised TypeError"
    by (simp add: boom_symbol_def)
  show ?thesis
    using 1 2 3 by (simp add: demo_resource_def lit_def dquote_def)
qed

text \<open>
  C7. When loading the alias configuration fails (\<open>loadConfig\<close> returns a result of
  type \<open>failed\<close>: no configuration file was found, or it has no base URL), the options
  registered with the transform pipeline hold no plugin, so every specifier is resolved
  by the default strategy, and the miss is no error of the evaluation: the registration
  is made first as on every run, and a module whose default export resolves to an
  accepted data value gives a fragment.
\<close>

theorem config_miss:
  assumes "loadConfig E = ConfigLoaderFail m"
  shows "plugins (transform_options E options) = []
       \<and> pipeline_resolve E (transform_options E options) sourcePath currentFile opts
           = defaultResolvePath E sourcePath currentFile opts
       \<and> (\<exists>rest. trace (snd (prevalLoader N V E content resource options w)) =
                   trace w @ Register (transform_options E options) # rest)
       \<and> (resolves_to N E resource options v \<longrightarrow> V resource v = None \<longrightarrow> is_data N v \<longrightarrow>
            (\<exists>t. JSON_stringify N v = Text t
                \<and> fst (prevalLoader N V E content resource options w) = Returned (fragment t)))"
proof -
  have p: "plugins (transform_options E options) = []"
    by (simp add: transform_options_fail[OF assms] babel_options_def)
  have r: "pipeline_resolve E (transform_options E options) sourcePath currentFile opts
           = defaultResolvePath E sourcePath currentFile opts"
    by (simp add: pipeline_resolve_def p)
  have f: "\<exists>t. JSON_stringify N v = Text t
              \<and> fst (prevalLoader N V E content resource options w) = Returned (fragment t)"
    if rv: "resolves_to N E resource options v" and ok: "V resource v = None"
      and dv: "is_data N v"
  proof -
    obtain t where "JSON_stringify N v = Text t"
      using data_has_text(1)[OF dv] by (auto simp: JSON_stringify_def)
    then show ?thesis
      using ok by (simp add: prevalLoader_resolved[OF rv])
  qed
  show ?thesis
    using p r f prevalLoader_registers_first[of N V E content resource options w] by blast
qed

theorem config_miss_witness:
  \<open>loadConfig (demo_env (ConfigLoaderFail (lit ''Missing baseUrl in compilerOptions''))
       (Exports (Some (Thenable (Fulfilled demo_value)))))
     = ConfigLoaderFail (lit ''Missing baseUrl in compilerOptions'')
   \<and> resolves_to int_ops
       (demo_env (ConfigLoaderFail (lit ''Missing baseUrl in compilerOptions''))
          (Exports (Some (Thenable (Fulfilled demo_value)))))
       demo_resource no_options demo_value
   \<and> accept_all demo_resource demo_value = None
   \<and> is_data int_ops demo_value
   \<and> plugins (transform_options
       (demo_env (ConfigLoaderFail (lit ''Missing baseUrl in compilerOptions''))
          (Exports (Some (Thenable (Fulfilled demo_value))))) no_options) = []
   \<and> fst (prevalLoader int_ops accept_all
       (demo_env (ConfigLoaderFail (lit ''Missing baseUrl in compilerOptions''))
          (Exports (Some (Thenable (Fulfilled demo_value)))))
       [] demo_resource no_options idle)
     = Returned (fragment (lit ''{"a":1,"b":[1,2,3]}''))\<close>
proof -
  let ?E = "demo_env (ConfigLoaderFail (lit ''Missing baseUrl in compilerOptions''))
              (Exports (Some (Thenable (Fulfilled demo_value))))"
  have c: "loadConfig ?E = ConfigLoaderFail (lit ''Missing baseUrl in compilerOptions'')"
    by (simp add: demo_env_def)
  have r: "resolves_to int_ops ?E demo_resource no_options demo_value"
    by (simp add: resolves_to_def demo_loaded)
  have a: "accept_all demo_resource demo_value = None"
    by (simp add: accept_all_def)
  have d: "is_data int_ops demo_value"
    by (simp add: demo_value_def int_ops_def)
  from config_miss[OF c, of no_options _ _ _ int_ops accept_all "[]" demo_resource idle demo_value]
  have "plugins (transform_options ?E no_options) = []"
    and "\<exists>t. JSON_stringify int_ops demo_value = Text t
           \<and> fst (prevalLoader int_ops accept_all ?E [] demo_resource no_options idle)
             = Returned (fragment t)"
    using r a d by blast+
  then show ?thesis
    using c r a d by (auto simp: demo_value_text demo_text_def)
qed

text \<open>
  C8. Two invocations with the same resource path and options, each finding the default
  export resolved to the same value, end alike: as far as one returns a fragment the other
  returns the same code units, whatever the state of the process, the alias configuration
  and the content argument are at each invocation. The fragment of a record of data holds
  its members in the order of the record.
\<close>

theorem same_value_same_fragment:
  assumes "resolves_to N E1 resource options v" and "resolves_to N E2 resource options v"
  shows "fst (prevalLoader N V E1 content1 resource options w1) =
         fst (prevalLoader N V E2 content2 resource options w2)
       \<and> (v = JObj kvs \<longrightarrow> is_data N v \<longrightarrow> V resource v = None \<longrightarrow>
            fst (prevalLoader N V E1 content1 resource options w1) =
            Returned (fragment
              (cu CHR ''{''
               # join_commas (map (\<lambda>(k, x). QuoteJSONString k @ cu CHR '':'' # text_of N x) kvs)
               @ [cu CHR ''}''])))"
proof -
  have "fst (prevalLoader N V E1 content1 resource options w1) =
        fst (prevalLoader N V E2 content2 resource options w2)"
    by (simp add: prevalLoader_resolved[OF assms(1)] prevalLoader_resolved[OF assms(2)])
  moreover have "fst (prevalLoader N V E1 content1 resource options w1) =
            Returned (fragment
              (cu CHR ''{''
               # join_commas (map (\<lambda>(k, x). QuoteJSONString k @ cu CHR '':'' # text_of N x) kvs)
               @ [cu CHR ''}'']))"
    if "v = JObj kvs" and "is_data N v" and "V resource v = None"
    using that record_text_in_order[of N kvs]
    by (simp add: prevalLoader_resolved[OF assms(1)])
  ultimately show ?thesis by blast
qed

text \<open>
  The second invocation starts in the state the first one left, finds no alias
  configuration and a plain value instead of a promise: the fragment is the same, with
  \<open>a\<close> before \<open>b\<close> as in the record.
\<close>

theorem same_value_same_fragment_witness:
  \<open>resolves_to int_ops (demo_env demo_config (Exports (Some (Thenable (Fulfilled demo_value)))))
       demo_resource no_options demo_value
   \<and> resolves_to int_ops
       (demo_env (ConfigLoaderFail (lit ''Missing baseUrl in compilerOptions''))
          (Exports (Some (Plain demo_value))))
       demo_resource no_options demo_value
   \<and> demo_value = JObj [(lit ''a'', JNum 1), (lit ''b'', JArr [JNum 1, JNum 2, JNum 3])]
   \<and> is_data int_ops demo_value
   \<and> accept_all demo_resource demo_value = None
   \<and> fst (prevalLoader int_ops accept_all
            (demo_env (ConfigLoaderFail (lit ''Missing baseUrl in compilerOptions''))
               (Exports (Some (Plain demo_value))))
            (lit ''changed'') demo_resource no_options
            (snd (prevalLoader int_ops accept_all
                    (demo_env demo_config (Exports (Some (Thenable (Fulfilled demo_value)))))
                    [] demo_resource no_options idle)))
     = Returned (fragment (lit ''{"a":1,"b":[1,2,3]}''))
   \<and> fst (prevalLoader int_ops accept_all
            (demo_env demo_config (Exports (Some (Thenable (Fulfilled demo_value)))))
            [] demo_resource no_options idle)
     = Returned (fragment (lit ''{"a":1,"b":[1,2,3]}''))\<close>
proof -
  let ?E1 = "demo_env demo_config (Exports (Some (Thenable (Fulfilled demo_value))))"
  let ?E2 = "demo_env (ConfigLoaderFail (lit ''Missing baseUrl in compilerOptions''))
               (Exports (Some (Plain demo_value)))"
  let ?kvs = "[(lit ''a'', JNum 1), (lit ''b'', JArr [JNum 1, JNum 2, JNum 3])]"
  have r1: "resolves_to int_ops ?E1 demo_resource no_options demo_value"
    by (simp add: resolves_to_def demo_loaded)
  have r2: "resolves_to int_ops ?E2 demo_resource no_options demo_value"
    by (simp add: resolves_to_def demo_loaded demo_value_def)
  have v: "demo_value = JObj ?kvs"
    by (simp add: demo_value_def)
  have d: "is_data int_ops demo_value"
    by (simp add: demo_value_def int_ops_def)
  have a: "accept_all demo_resource demo_value = None"
    by (simp add: accept_all_def)
  let ?run1 = "prevalLoader int_ops accept_all ?E1 [] demo_resource no_options idle"
  from same_value_same_fragment[OF r1 r2, of accept_all "[]" idle "lit ''changed''"
         "snd ?run1" ?kvs]
  have same: "fst ?run1 = fst (prevalLoader int_ops accept_all ?E2 (lit ''changed'')
                                 demo_resource no_options (snd ?run1))"
    and "fst ?run1 =
         Returned (fragment
           (cu CHR ''{''
            # join_commas
                (map (\<lambda>(k, x). QuoteJSONString k @ cu CHR '':'' # text_of int_ops x) ?kvs)
            @ [cu CHR ''}'']))"
    using v d a by blast+
  moreover have "text_of int_ops (JNum 1) = lit ''1''"
    and "text_of int_ops (JArr [JNum 1, JNum 2, JNum 3]) = lit ''[1,2,3]''"
    by (simp_all add: text_of_def JSON_stringify_def int_ops_def show_int_def show_nat_digit
          lit_def)
  ultimately have "fst ?run1 = Returned (fragment demo_text)"
    by (simp add: demo_text_def QuoteJSONString_def escape_unit_def lit_def dquote_def
          backslash_def is_leading_surrogate_def is_trailing_surrogate_def)
  then show ?thesis
    using same r1 r2 v d a by (simp add: demo_text_def)
qed

text \<open>
  C9. A default export that exists but is falsy (\<open>undefined\<close>, \<open>null\<close>, \<open>false\<close>, the
  empty string, or a number that \<open>ToBoolean\<close> sends to false: zero and \<open>NaN\<close>) is
  rejected with the error of the missing default export.
\<close>

theorem falsy_default_export:
  assumes "loaded_module E resource options = Exports (Some (Plain v))" and "\<not> to_boolean N v"
  shows "fst (prevalLoader N V E content resource options w) =
     Raised (PrevalError (lit ''Failed to pre-evaluate '' @ [dquote] @ resource @ [dquote]
        @ lit ''. Error: No default export. Did you forget to `export default`? See above for full stack trace.''))"
  using prevalLoader_no_default[OF assms(1), of N] assms(2) by (simp add: exported_truthy_def)

text \<open>The module says \<open>export default 0\<close>.\<close>

theorem falsy_default_export_witness:
  \<open>loaded_module (demo_env demo_config (Exports (Some (Plain (JNum 0))))) demo_resource no_options
     = Exports (Some (Plain (JNum 0)))
   \<and> to_boolean int_ops (JNum 0) = False
   \<and> fst (prevalLoader int_ops accept_all (demo_env demo_config (Exports (Some (Plain (JNum 0)))))
            [] demo_resource no_options idle) =
     Raised (PrevalError (lit ''Failed to pre-evaluate "/app/data.preval.ts". Error: No default export. Did you forget to `export default`? See above for full stack trace.''))\<close>
proof -
  let ?E = "demo_env demo_config (Exports (Some (Plain (JNum 0))))"
  have m: "loaded_module ?E demo_resource no_options = Exports (Some (Plain (JNum 0)))"
    by (simp add: demo_loaded)
  have f: "\<not> to_boolean int_ops (JNum 0)"
    by (simp add: int_ops_def)
  from falsy_default_export[OF m f, of accept_all "[]" idle] show ?thesis
    using m f by (simp add: demo_resource_def lit_def dquote_def)
qed

text \<open>
  C10. A default export that is a truthy data value \<open>v\<close> and no thenable is accepted as
  it is: awaiting it gives \<open>v\<close>, and the loader returns the fragment that encodes \<open>v\<close>,
  the same as for a module that exports a promise fulfilled with \<open>v\<close>.
\<close>

theorem plain_default_export:
  assumes "loaded_module E resource options = Exports (Some (Plain v))"
    and "to_boolean N v" and "is_data N v" and "V resource v = None"
    and "loaded_module E' resource options = Exports (Some (Thenable (Fulfilled v)))"
  shows "\<exists>t. JSON_stringify N v = Text t
           \<and> fst (prevalLoader N V E content resource options w) = Returned (fragment t)
           \<and> fst (prevalLoader N V E' content resource options w) = Returned (fragment t)"
proof -
  obtain t where t: "JSON_stringify N v = Text t"
    using data_has_text(1)[OF assms(3)] by (auto simp: JSON_stringify_def)
  have "resolves_to N E resource options v" "resolves_to N E' resource options v"
    using assms by (simp_all add: resolves_to_def)
  then show ?thesis
    using t assms(4) by (simp add: prevalLoader_resolved)
qed

theorem plain_default_export_witness:
  \<open>loaded_module (demo_env demo_config (Exports (Some (Plain demo_value)))) demo_resource no_options
     = Exports (Some (Plain demo_value))
   \<and> to_boolean int_ops demo_value
   \<and> is_data int_ops demo_value
   \<and> accept_all demo_resource demo_value = None
   \<and> loaded_module (demo_env demo_config (Exports (Some (Thenable (Fulfilled demo_value)))))
       demo_resource no_options = Exports (Some (Thenable (Fulfilled demo_value)))
   \<and> fst (prevalLoader int_ops accept_all (demo_env demo_config (Exports (Some (Plain demo_value))))
            [] demo_resource no_options idle)
     = Returned (fragment (lit ''{"a":1,"b":[1,2,3]}''))
   \<and> fst (prevalLoader int_ops accept_all
            (demo_env demo_config (Exports (Some (Thenable (Fulfilled demo_value)))))
            [] demo_resource no_options idle)
     = Returned (fragment (lit ''{"a":1,"b":[1,2,3]}''))\<close>
proof -
  let ?E = "demo_env demo_config (Exports (Some (Plain demo_value)))"
  let ?E' = "demo_env demo_config (Exports (Some (Thenable (Fulfilled demo_value))))"
  have m: "loaded_module ?E demo_resource no_options = Exports (Some (Plain demo_value))"
    and m': "loaded_module ?E' demo_resource no_options
             = Exports (Some (Thenable (Fulfilled demo_value)))"
    by (simp_all add: demo_loaded)
  have b: "to_boolean int_ops demo_value" and d: "is_data int_ops demo_value"
    by (simp_all add: demo_value_def int_ops_def)
  have a: "accept_all demo_resource demo_value = None"
    by (simp add: accept_all_def)
  from plain_default_export[where V = accept_all, OF m b d a m', of "[]" idle] show ?thesis
    using m m' b d a by (auto simp: demo_value_text demo_text_def)
qed

section \<open>A further property\<close>

text \<open>
  When the default export is a thenable that never settles, \<open>_prevalLoader\<close> stays at its
  \<open>await\<close>: it neither returns nor raises, the teardown has not run, and the registration
  it made is still the active one.
\<close>

theorem pending_export_keeps_registration:
  assumes "loaded_module E resource options = Exports (Some (Thenable Never))"
  shows "prevalLoader N V E content resource options w
         = (Suspended, register (transform_options E options) w)"
proof -
  have "try_block N E resource (hook (register (transform_options E options) w)) = Pending"
    using assms unfolding try_block_registered by (simp add: exported_truthy_def)
  then show ?thesis
    by (simp add: prevalLoader_def evaluate_module_def)
qed

theorem pending_export_keeps_registration_witness:
  "loaded_module (demo_env demo_config (Exports (Some (Thenable Never)))) demo_resource no_options
     = Exports (Some (Thenable Never))
   \<and> fst (prevalLoader int_ops accept_all (demo_env demo_config (Exports (Some (Thenable Never))))
            [] demo_resource no_options idle) = Suspended
   \<and> hook (snd (prevalLoader int_ops accept_all
            (demo_env demo_config (Exports (Some (Thenable Never))))
            [] demo_resource no_options idle))
     = Some (transform_options (demo_env demo_config (Exports (Some (Thenable Never)))) no_options)
   \<and> filter is_revert (trace (snd (prevalLoader int_ops accept_all
            (demo_env demo_config (Exports (Some (Thenable Never))))
            [] demo_resource no_options idle))) = []"
proof -
  let ?E = "demo_env demo_config (Exports (Some (Thenable Never)))"
  have m: "loaded_module ?E demo_resource no_options = Exports (Some (Thenable Never))"
    by (simp add: demo_loaded)
  from pending_export_keeps_registration[OF m, of int_ops accept_all "[]" idle] show ?thesis
    using m by (simp add: register_def idle_def)
qed

end
